theory Spec2Isabelle
  imports Main
begin

section \<open>JavaScript values used by the entry points\<close>

text \<open>
  The values that occur in \<^verbatim>\<open>src/server.js\<close>: a numeric literal and a property of
  \<^verbatim>\<open>process.env\<close>, which is either \<^verbatim>\<open>undefined\<close> or a string.
\<close>

datatype jsval = Undefined | Num int | Str string

text \<open>JavaScript's truthiness on these values: \<^verbatim>\<open>undefined\<close>, \<^verbatim>\<open>0\<close> and \<^verbatim>\<open>''\<close> are falsy.\<close>

fun truthy :: "jsval \<Rightarrow> bool" where
  "truthy Undefined = False"
| "truthy (Num n) = (n \<noteq> 0)"
| "truthy (Str s) = (s \<noteq> [])"

text \<open>\<^verbatim>\<open>a || b\<close> evaluates to \<^verbatim>\<open>a\<close> when \<^verbatim>\<open>a\<close> is truthy and to \<^verbatim>\<open>b\<close> otherwise.\<close>

definition js_or :: "jsval \<Rightarrow> jsval \<Rightarrow> jsval" where
  "js_or a b = (if truthy a then a else b)"

text \<open>\<^verbatim>\<open>process.env\<close>: a dictionary from variable names to strings.\<close>

type_synonym environment = "string \<rightharpoonup> string"

definition env_get :: "environment \<Rightarrow> string \<Rightarrow> jsval" where
  "env_get env k = (case env k of None \<Rightarrow> Undefined | Some s \<Rightarrow> Str s)"

section \<open>\<^verbatim>\<open>src/server.js\<close>\<close>

text \<open>
  \<^verbatim>\<open>const PORT = 3000 || process.env.PORT;\<close>
  \<^verbatim>\<open>app.listen(PORT, () => { console.log(`Listening on http://localhost:${PORT}`); });\<close>
\<close>

definition PORT :: "environment \<Rightarrow> jsval" where
  "PORT env = js_or (Num 3000) (env_get env ''PORT'')"

text \<open>The port handed to \<^verbatim>\<open>app.listen\<close>.\<close>

definition listen_port :: "environment \<Rightarrow> jsval" where
  "listen_port env = PORT env"

section \<open>\<^verbatim>\<open>src/models/user.model.js\<close>: the schema of the \<^verbatim>\<open>users\<close> table\<close>

text \<open>
  The column builders of \<^verbatim>\<open>drizzle-orm/pg-core\<close> that the model uses. A column is the
  record of what a builder chain has accumulated.
\<close>

datatype coltype = Serial | Varchar nat | Timestamp

datatype coldefault = DefaultValue string | DefaultNow

record column =
  col_name :: string
  col_type :: coltype
  is_primary_key :: bool
  is_not_null :: bool
  is_unique :: bool
  col_default :: "coldefault option"

text \<open>
  \<^verbatim>\<open>serial(name)\<close>: the builder of a serial column marks it not null (its default is the
  next value of the column's sequence).
\<close>

definition serial :: "string \<Rightarrow> column" where
  "serial n = \<lparr>col_name = n, col_type = Serial, is_primary_key = False,
     is_not_null = True, is_unique = False, col_default = None\<rparr>"

text \<open>\<^verbatim>\<open>varchar(name, { length: n })\<close>\<close>

definition varchar :: "string \<Rightarrow> nat \<Rightarrow> column" where
  "varchar n len = \<lparr>col_name = n, col_type = Varchar len, is_primary_key = False,
     is_not_null = False, is_unique = False, col_default = None\<rparr>"

text \<open>
  \<^verbatim>\<open>timestamp()\<close>, called without a column name: the name stays empty until \<^verbatim>\<open>pgTable\<close>
  fills in the key under which the column is declared.
\<close>

definition timestamp :: "column" where
  "timestamp = \<lparr>col_name = [], col_type = Timestamp, is_primary_key = False,
     is_not_null = False, is_unique = False, col_default = None\<rparr>"

text \<open>The chained modifiers: \<^verbatim>\<open>.primaryKey()\<close> (a primary key is not null), \<^verbatim>\<open>.notNull()\<close>,
  \<^verbatim>\<open>.unique()\<close>, \<^verbatim>\<open>.default(v)\<close> and \<^verbatim>\<open>.defaultNow()\<close>.\<close>

definition primaryKey :: "column \<Rightarrow> column" where
  "primaryKey c = c\<lparr>is_primary_key := True, is_not_null := True\<rparr>"

definition notNull :: "column \<Rightarrow> column" where
  "notNull c = c\<lparr>is_not_null := True\<rparr>"

definition unique :: "column \<Rightarrow> column" where
  "unique c = c\<lparr>is_unique := True\<rparr>"

definition default_value :: "string \<Rightarrow> column \<Rightarrow> column" where
  "default_value v c = c\<lparr>col_default := Some (DefaultValue v)\<rparr>"

definition defaultNow :: "column \<Rightarrow> column" where
  "defaultNow c = c\<lparr>col_default := Some DefaultNow\<rparr>"

record table =
  table_name :: string
  columns :: "column list"

text \<open>\<^verbatim>\<open>pgTable(name, { key: builder, ... })\<close>: a column declared without a name takes its key.\<close>

definition pgTable :: "string \<Rightarrow> (string \<times> column) list \<Rightarrow> table" where
  "pgTable n cols = \<lparr>table_name = n,
     columns = map (\<lambda>(key, c). if col_name c = [] then c\<lparr>col_name := key\<rparr> else c) cols\<rparr>"

text \<open>
  \<^verbatim>\<open>export const users = pgTable('users', { id: serial('id').primaryKey(), ... })\<close>,
  lines 8 to 16 of the model, one entry per line of the source.
\<close>

definition users :: table where
  "users = pgTable ''users''
     [(''id'', primaryKey (serial ''id'')),
      (''name'', notNull (varchar ''name'' 256)),
      (''email'', unique (notNull (varchar ''email'' 256))),
      (''password'', notNull (varchar ''password'' 512)),
      (''role'', default_value ''user'' (notNull (varchar ''role'' 50))),
      (''create_at'', notNull (defaultNow timestamp)),
      (''update_at'', notNull (defaultNow timestamp))]"

subsection \<open>The generated migration\<close>

text \<open>
  The \<^verbatim>\<open>CREATE TABLE "users"\<close> statement under \<^verbatim>\<open>drizzle/\<close>: seven column definitions and the
  table constraint \<^verbatim>\<open>CONSTRAINT "users_email_unique" UNIQUE("email")\<close>.
\<close>

datatype table_constraint = UNIQUE string

definition apply_constraint :: "table_constraint \<Rightarrow> column \<Rightarrow> column" where
  "apply_constraint k c = (case k of UNIQUE n \<Rightarrow> if col_name c = n then c\<lparr>is_unique := True\<rparr> else c)"

definition create_table :: "string \<Rightarrow> column list \<Rightarrow> table_constraint list \<Rightarrow> table" where
  "create_table n cols ks = \<lparr>table_name = n, columns = map (\<lambda>c. fold apply_constraint ks c) cols\<rparr>"

definition users_migration :: table where
  "users_migration = create_table ''users''
     [\<lparr>col_name = ''id'', col_type = Serial, is_primary_key = True,
        is_not_null = True, is_unique = False, col_default = None\<rparr>,
      \<lparr>col_name = ''name'', col_type = Varchar 256, is_primary_key = False,
        is_not_null = True, is_unique = False, col_default = None\<rparr>,
      \<lparr>col_name = ''email'', col_type = Varchar 256, is_primary_key = False,
        is_not_null = True, is_unique = False, col_default = None\<rparr>,
      \<lparr>col_name = ''password'', col_type = Varchar 512, is_primary_key = False,
        is_not_null = True, is_unique = False, col_default = None\<rparr>,
      \<lparr>col_name = ''role'', col_type = Varchar 50, is_primary_key = False,
        is_not_null = True, is_unique = False, col_default = Some (DefaultValue ''user'')\<rparr>,
      \<lparr>col_name = ''create_at'', col_type = Timestamp, is_primary_key = False,
        is_not_null = True, is_unique = False, col_default = Some DefaultNow\<rparr>,
      \<lparr>col_name = ''update_at'', col_type = Timestamp, is_primary_key = False,
        is_not_null = True, is_unique = False, col_default = Some DefaultNow\<rparr>]
     [UNIQUE ''email'']"

text \<open>Looking a column up by its name.\<close>

definition column_of :: "table \<Rightarrow> string \<Rightarrow> column option" where
  "column_of t n = find (\<lambda>c. col_name c = n) (columns t)"

section \<open>The store: rows of a table and what an insert does\<close>

text \<open>
  The database holds the rows of \<^verbatim>\<open>users\<close> and the sequence behind the serial column.
  A value is SQL's \<^verbatim>\<open>NULL\<close>, an integer, a string or a timestamp (a point of time as a
  number). A row pairs every column name of the table with its value, in the order of
  the columns.
\<close>

datatype sqlval = Null | IntV int | StrV string | TimeV nat

type_synonym row = "(string \<times> sqlval) list"

record store =
  rows :: "row list"
  id_seq :: int

definition empty_store :: store where
  "empty_store = \<lparr>rows = [], id_seq = 1\<rparr>"

definition field :: "row \<Rightarrow> string \<Rightarrow> sqlval" where
  "field r n = (case map_of r n of Some v \<Rightarrow> v | None \<Rightarrow> Null)"

datatype db_error =
  NotNullViolation string
| UniqueViolation string
| StringTooLong string
| DatatypeMismatch string

text \<open>
  The value of a column the statement leaves out: the next value of the sequence for a
  serial column, the declared default otherwise, \<^verbatim>\<open>NULL\<close> when there is none.
\<close>

definition default_of :: "column \<Rightarrow> nat \<Rightarrow> int \<Rightarrow> sqlval" where
  "default_of c now seq =
     (case col_type c of
        Serial \<Rightarrow> IntV seq
      | _ \<Rightarrow> (case col_default c of
                None \<Rightarrow> Null
              | Some (DefaultValue s) \<Rightarrow> StrV s
              | Some DefaultNow \<Rightarrow> TimeV now))"

definition column_value :: "column \<Rightarrow> (string \<times> sqlval) list \<Rightarrow> nat \<Rightarrow> int \<Rightarrow> sqlval" where
  "column_value c vals now seq =
     (case map_of vals (col_name c) of Some v \<Rightarrow> v | None \<Rightarrow> default_of c now seq)"

text \<open>
  Storing a value in a column of a type. \<^verbatim>\<open>NULL\<close> fits every type. A string longer than
  the \<^verbatim>\<open>varchar(n)\<close> limit is an error unless every character beyond the limit is a
  space, in which case it is cut to the limit.
\<close>

fun coerce :: "column \<Rightarrow> sqlval \<Rightarrow> db_error + sqlval" where
  "coerce c Null = Inr Null"
| "coerce c (IntV i) =
     (case col_type c of Serial \<Rightarrow> Inr (IntV i) | _ \<Rightarrow> Inl (DatatypeMismatch (col_name c)))"
| "coerce c (StrV s) =
     (case col_type c of
        Varchar n \<Rightarrow>
          if length s \<le> n then Inr (StrV s)
          else if list_all (\<lambda>ch. ch = CHR '' '') (drop n s) then Inr (StrV (take n s))
          else Inl (StringTooLong (col_name c))
      | _ \<Rightarrow> Inl (DatatypeMismatch (col_name c)))"
| "coerce c (TimeV t) =
     (case col_type c of Timestamp \<Rightarrow> Inr (TimeV t) | _ \<Rightarrow> Inl (DatatypeMismatch (col_name c)))"

fun build_row :: "column list \<Rightarrow> (string \<times> sqlval) list \<Rightarrow> nat \<Rightarrow> int \<Rightarrow> db_error + row" where
  "build_row [] vals now seq = Inr []"
| "build_row (c # cs) vals now seq =
     (case coerce c (column_value c vals now seq) of
        Inl e \<Rightarrow> Inl e
      | Inr v \<Rightarrow> (case build_row cs vals now seq of
                   Inl e \<Rightarrow> Inl e
                 | Inr r \<Rightarrow> Inr ((col_name c, v) # r)))"

fun check_not_null :: "column list \<Rightarrow> row \<Rightarrow> db_error option" where
  "check_not_null [] r = None"
| "check_not_null (c # cs) r =
     (if is_not_null c \<and> field r (col_name c) = Null then Some (NotNullViolation (col_name c))
      else check_not_null cs r)"

text \<open>A unique or primary key column admits no second row with the same non-null value.\<close>

fun check_unique :: "column list \<Rightarrow> row list \<Rightarrow> row \<Rightarrow> db_error option" where
  "check_unique [] rs r = None"
| "check_unique (c # cs) rs r =
     (if (is_unique c \<or> is_primary_key c) \<and> field r (col_name c) \<noteq> Null
         \<and> field r (col_name c) \<in> (\<lambda>r'. field r' (col_name c)) ` set rs
      then Some (UniqueViolation (col_name c))
      else check_unique cs rs r)"

definition uses_sequence :: "table \<Rightarrow> (string \<times> sqlval) list \<Rightarrow> bool" where
  "uses_sequence t vals =
     list_ex (\<lambda>c. col_type c = Serial \<and> map_of vals (col_name c) = None) (columns t)"

text \<open>
  \<^verbatim>\<open>db.insert(t).values(vals)\<close> at time \<open>now\<close>: the row is built from the supplied values and
  the defaults, then checked against the not-null and the uniqueness constraints, and
  appended when every check passes. A sequence value that was drawn stays drawn when the
  statement fails.
\<close>

definition db_insert :: "table \<Rightarrow> nat \<Rightarrow> (string \<times> sqlval) list \<Rightarrow> store \<Rightarrow> (db_error + row) \<times> store" where
  "db_insert t now vals st =
     (let st1 = (if uses_sequence t vals then st\<lparr>id_seq := id_seq st + 1\<rparr> else st)
      in case build_row (columns t) vals now (id_seq st) of
           Inl e \<Rightarrow> (Inl e, st1)
         | Inr r \<Rightarrow>
             (case check_not_null (columns t) r of
                Some e \<Rightarrow> (Inl e, st1)
              | None \<Rightarrow>
                  (case check_unique (columns t) (rows st) r of
                     Some e \<Rightarrow> (Inl e, st1)
                   | None \<Rightarrow> (Inr r, st1\<lparr>rows := rows st @ [r]\<rparr>))))"

text \<open>\<^verbatim>\<open>db.select().from(t).where(eq(column, v))\<close>\<close>

definition db_select_eq :: "string \<Rightarrow> sqlval \<Rightarrow> store \<Rightarrow> row list" where
  "db_select_eq n v st = filter (\<lambda>r. field r n = v) (rows st)"

text \<open>A run of insert statements against \<^verbatim>\<open>users\<close>, each with its time and its values.\<close>

fun run_inserts :: "store \<Rightarrow> (nat \<times> (string \<times> sqlval) list) list \<Rightarrow> store" where
  "run_inserts st [] = st"
| "run_inserts st ((now, vals) # xs) = run_inserts (snd (db_insert users now vals st)) xs"

section \<open>HTTP requests, responses and the process state\<close>

datatype http_method = GET | POST | PUT | PATCH | DELETE | HEAD | OPTIONS

text \<open>
  What a request carries as its body, as the body parsers of the application classify it
  from the content type, the charset, the encoding, the length and the bytes: nothing, a
  JSON object with its fields, the fields of a URL-encoded form, a JSON or form payload
  that the parser for its type refuses with an HTTP status (400 for text that does not
  parse, 413 for a body over the limit, 415 for a charset or an encoding it does not
  support), or a payload of another type, which no parser of the application reads.
\<close>

datatype payload =
  NoPayload
| JsonObject "(string \<times> jsval) list"
| FormFields "(string \<times> jsval) list"
| RejectedJson nat
| RejectedForm nat
| OtherPayload

text \<open>
  A request: \<open>req_path\<close> is the path of the URL without the query string, \<open>req_body\<close> is
  \<^verbatim>\<open>req.body\<close>, which is empty until a body parser fills it.
\<close>

record request =
  req_method :: http_method
  req_path :: string
  req_headers :: "(string \<times> string) list"
  req_cookies :: "(string \<times> string) list"
  req_payload :: payload
  req_body :: "(string \<times> jsval) list"

record cookie_options =
  httpOnly :: bool
  secure :: bool
  sameSite :: string
  maxAge :: nat

datatype cookie = SetCookie string string cookie_options | ClearCookie string cookie_options

datatype response_body =
  NoBody
| Text string
| HealthJson string nat nat
| MessageJson string
| UserJson row
| ErrorJson string
| ErrorPage

record response =
  status :: nat
  resp_body :: response_body
  resp_cookies :: "cookie list"

datatype log_entry =
  Info string
| UserCreated sqlval sqlval
| UserAuthenticated sqlval sqlval
| AccessLine http_method string nat

text \<open>What a handler can read and change: the database and the log behind \<^verbatim>\<open>logger\<close>.\<close>

record world =
  db :: store
  log :: "log_entry list"

definition initial_world :: world where
  "initial_world = \<lparr>db = empty_store, log = []\<rparr>"

definition logger_info :: "log_entry \<Rightarrow> world \<Rightarrow> world" where
  "logger_info e w = w\<lparr>log := log w @ [e]\<rparr>"

section \<open>\<^verbatim>\<open>src/utils/cookies.js\<close>\<close>

text \<open>
  Modelled from the spec: \<^verbatim>\<open>src/utils/cookies.js\<close> is not among the sources. Section 4.4:
  "\<^verbatim>\<open>buildOptions(env)\<close>: \<^verbatim>\<open>httpOnly=true\<close>; \<^verbatim>\<open>secure = (env == production)\<close>;
  \<^verbatim>\<open>sameSite = strict\<close>; \<^verbatim>\<open>maxAge = 15 minutes\<close>" (\<^verbatim>\<open>getOptions\<close> in the repository's
  \<^verbatim>\<open>WARP.md\<close>). The argument is the value of the deployment-environment flag; the age
  is in milliseconds, the unit of a cookie's \<^verbatim>\<open>maxAge\<close> option.
\<close>

definition getOptions :: "jsval \<Rightarrow> cookie_options" where
  "getOptions env = \<lparr>httpOnly = True, secure = (env = Str ''production''),
     sameSite = ''strict'', maxAge = 15 * 60 * 1000\<rparr>"

record cookie_overrides =
  set_httpOnly :: "bool option"
  set_secure :: "bool option"
  set_sameSite :: "string option"
  set_maxAge :: "nat option"

definition no_overrides :: cookie_overrides where
  "no_overrides = \<lparr>set_httpOnly = None, set_secure = None, set_sameSite = None, set_maxAge = None\<rparr>"

text \<open>
  Modelled from the spec: the option merge of \<^verbatim>\<open>set\<close> and \<^verbatim>\<open>clear\<close>, section 4.4:
  "merges \<^verbatim>\<open>overrides\<close> over the base options".
\<close>

definition merge_options :: "cookie_options \<Rightarrow> cookie_overrides \<Rightarrow> cookie_options" where
  "merge_options base ov =
     \<lparr>httpOnly = (case set_httpOnly ov of None \<Rightarrow> httpOnly base | Some v \<Rightarrow> v),
      secure = (case set_secure ov of None \<Rightarrow> secure base | Some v \<Rightarrow> v),
      sameSite = (case set_sameSite ov of None \<Rightarrow> sameSite base | Some v \<Rightarrow> v),
      maxAge = (case set_maxAge ov of None \<Rightarrow> maxAge base | Some v \<Rightarrow> v)\<rparr>"

text \<open>
  Modelled from the spec: \<^verbatim>\<open>set(response, name, value, overrides)\<close>, section 4.4:
  "attaches a cookie to the outgoing response".
\<close>

definition cookies_set :: "jsval \<Rightarrow> response \<Rightarrow> string \<Rightarrow> string \<Rightarrow> cookie_overrides \<Rightarrow> response" where
  "cookies_set env res n v ov =
     res\<lparr>resp_cookies := resp_cookies res @ [SetCookie n v (merge_options (getOptions env) ov)]\<rparr>"

text \<open>
  Modelled from the spec: \<^verbatim>\<open>clear(response, name, overrides)\<close>, section 4.4: "instructs
  the client to drop the cookie, using the same option merge".
\<close>

definition cookies_clear :: "jsval \<Rightarrow> response \<Rightarrow> string \<Rightarrow> cookie_overrides \<Rightarrow> response" where
  "cookies_clear env res n ov =
     res\<lparr>resp_cookies := resp_cookies res @ [ClearCookie n (merge_options (getOptions env) ov)]\<rparr>"

text \<open>
  Modelled from the spec: \<^verbatim>\<open>get(request, name)\<close>, section 4.4: "reads from parsed
  incoming cookies".
\<close>

definition cookies_get :: "request \<Rightarrow> string \<Rightarrow> string option" where
  "cookies_get req n = map_of (req_cookies req) n"

section \<open>\<^verbatim>\<open>src/services/auth.service.js\<close>\<close>

text \<open>
  What the service and the handlers take from outside: the password hasher, the token
  issuer, the format checks on an email and on a password (the spec names them without
  giving them), the deployment-environment flag, the time the process started, and the
  test Express makes before it sends a body: whether the cache validators among the
  request headers (\<^verbatim>\<open>If-None-Match\<close>, \<^verbatim>\<open>If-Modified-Since\<close>, \<^verbatim>\<open>Cache-Control\<close>) match the
  entity tag it computes for that body.
\<close>

record claims =
  claim_id :: sqlval
  claim_email :: sqlval
  claim_role :: sqlval

record deps =
  hashPassword :: "string \<Rightarrow> string"
  comparePassword :: "string \<Rightarrow> string \<Rightarrow> bool"
  jwt_sign :: "claims \<Rightarrow> string"
  email_format :: "string \<Rightarrow> bool"
  password_format :: "string \<Rightarrow> bool"
  node_env :: jsval
  started :: nat
  validators_match :: "(string \<times> string) list \<Rightarrow> response_body \<Rightarrow> bool"

datatype auth_error = UserAlreadyExists | UserNotFound | InvalidCredentials | StoreError db_error

text \<open>
  Modelled from the spec: the projection of a user, absent with the service. Glossary:
  "a user record with the password hash field removed".
\<close>

definition projection :: "row \<Rightarrow> row" where
  "projection r = filter (\<lambda>(k, v). k \<noteq> ''password'') r"

text \<open>
  Modelled from the spec: \<^verbatim>\<open>createUser\<close> of \<^verbatim>\<open>src/services/auth.service.js\<close>, which is
  not among the sources. Section 4.5: "1. Look up \<^verbatim>\<open>email\<close> in Credential Store. 2. If
  found, fails with \<^verbatim>\<open>UserAlreadyExists\<close>. 3. Else: hash password, insert new User with
  defaults (\<^verbatim>\<open>role\<close> defaults to \<^verbatim>\<open>user\<close> if unset), return the User projection
  excluding \<^verbatim>\<open>passwordHash\<close>"; a log entry with email and role on success; a store
  failure propagates.
\<close>

definition createUser ::
  "deps \<Rightarrow> nat \<Rightarrow> string \<Rightarrow> string \<Rightarrow> string \<Rightarrow> string option \<Rightarrow> world \<Rightarrow> (auth_error + row) \<times> world" where
  "createUser d now nm em pw rl w =
     (if db_select_eq ''email'' (StrV em) (db w) \<noteq> [] then (Inl UserAlreadyExists, w)
      else
        case db_insert users now
               ([(''name'', StrV nm), (''email'', StrV em), (''password'', StrV (hashPassword d pw))]
                @ (case rl of None \<Rightarrow> [] | Some r \<Rightarrow> [(''role'', StrV r)]))
               (db w) of
          (Inl e, st) \<Rightarrow> (Inl (StoreError e), w\<lparr>db := st\<rparr>)
        | (Inr r, st) \<Rightarrow>
            (Inr (projection r),
             logger_info (UserCreated (field r ''email'') (field r ''role'')) (w\<lparr>db := st\<rparr>)))"

text \<open>
  Modelled from the spec: \<^verbatim>\<open>authenticateUser\<close> of the same absent file. Section 4.5:
  "1. Look up \<^verbatim>\<open>email\<close>; if absent, fails with \<^verbatim>\<open>UserNotFound\<close>. 2. Compare password
  against stored hash; if mismatch, fails with \<^verbatim>\<open>InvalidCredentials\<close>. 3. Else return
  the User projection excluding \<^verbatim>\<open>passwordHash\<close>"; a log entry on success.
\<close>

definition authenticateUser ::
  "deps \<Rightarrow> string \<Rightarrow> string \<Rightarrow> world \<Rightarrow> (auth_error + row) \<times> world" where
  "authenticateUser d em pw w =
     (case db_select_eq ''email'' (StrV em) (db w) of
        [] \<Rightarrow> (Inl UserNotFound, w)
      | r # _ \<Rightarrow>
          (case field r ''password'' of
             StrV h \<Rightarrow>
               if comparePassword d pw h
               then (Inr (projection r),
                     logger_info (UserAuthenticated (field r ''email'') (field r ''role'')) w)
               else (Inl InvalidCredentials, w)
           | _ \<Rightarrow> (Inl InvalidCredentials, w)))"

section \<open>\<^verbatim>\<open>src/validations/auth.validation.js\<close>\<close>

definition str_field :: "(string \<times> jsval) list \<Rightarrow> string \<Rightarrow> string option" where
  "str_field b k = (case map_of b k of Some (Str s) \<Rightarrow> Some s | _ \<Rightarrow> None)"

record signup_input =
  in_name :: string
  in_email :: string
  in_password :: string
  in_role :: "string option"

text \<open>
  Modelled from the spec: \<^verbatim>\<open>signupSchema\<close> of \<^verbatim>\<open>src/validations/auth.validation.js\<close>,
  which is not among the sources. Section 4.6: "validate \<^verbatim>\<open>{name, email, password, role?}\<close>
  (string length/format constraints; \<^verbatim>\<open>role\<close> restricted to \<^verbatim>\<open>{user, admin}\<close>)"; section 3:
  "\<^verbatim>\<open>name\<close>: string, 1 to 255 characters, required". The result is the parsed input or
  the names of the fields that failed.
\<close>

definition signupSchema :: "deps \<Rightarrow> (string \<times> jsval) list \<Rightarrow> string list + signup_input" where
  "signupSchema d b =
     (let name_errors = (case str_field b ''name'' of
                           Some nm \<Rightarrow> if 1 \<le> length nm \<and> length nm \<le> 255 then [] else [''name'']
                         | None \<Rightarrow> [''name'']);
          email_errors = (case str_field b ''email'' of
                            Some em \<Rightarrow> if email_format d em then [] else [''email'']
                          | None \<Rightarrow> [''email'']);
          password_errors = (case str_field b ''password'' of
                               Some pw \<Rightarrow> if password_format d pw then [] else [''password'']
                             | None \<Rightarrow> [''password'']);
          role_errors = (case map_of b ''role'' of
                           None \<Rightarrow> []
                         | Some Undefined \<Rightarrow> []
                         | Some (Str r) \<Rightarrow> if r = ''user'' \<or> r = ''admin'' then [] else [''role'']
                         | Some (Num n) \<Rightarrow> [''role'']);
          errors = name_errors @ email_errors @ password_errors @ role_errors
      in case (errors, str_field b ''name'', str_field b ''email'', str_field b ''password'') of
           ([], Some nm, Some em, Some pw) \<Rightarrow>
             Inr \<lparr>in_name = nm, in_email = em, in_password = pw, in_role = str_field b ''role''\<rparr>
         | _ \<Rightarrow> Inl errors)"

text \<open>
  Modelled from the spec: \<^verbatim>\<open>signInSchema\<close> of the same absent file. Section 4.6:
  "validate \<^verbatim>\<open>{email, password}\<close>".
\<close>

definition signInSchema :: "deps \<Rightarrow> (string \<times> jsval) list \<Rightarrow> string list + string \<times> string" where
  "signInSchema d b =
     (let email_errors = (case str_field b ''email'' of
                            Some em \<Rightarrow> if email_format d em then [] else [''email'']
                          | None \<Rightarrow> [''email'']);
          password_errors = (case str_field b ''password'' of
                               Some pw \<Rightarrow> []
                             | None \<Rightarrow> [''password'']);
          errors = email_errors @ password_errors
      in case (errors, str_field b ''email'', str_field b ''password'') of
           ([], Some em, Some pw) \<Rightarrow> Inr (em, pw)
         | _ \<Rightarrow> Inl errors)"

text \<open>
  Modelled from the spec: \<^verbatim>\<open>formatValidationError\<close> of \<^verbatim>\<open>src/utils/format.js\<close>, not
  among the sources. Section 4.6: "a human-readable, comma-joined list of field errors".
\<close>

fun formatValidationError :: "string list \<Rightarrow> string" where
  "formatValidationError [] = []"
| "formatValidationError [e] = e"
| "formatValidationError (e # es) = e @ '', '' @ formatValidationError es"

section \<open>\<^verbatim>\<open>src/controllers/auth.controller.js\<close>\<close>

text \<open>
  Modelled from the spec: the boundary to which a handler forwards a failure it does not
  classify, outside the sources. Section 7: "propagated to a generic boundary that
  returns HTTP 500".
\<close>

definition error_boundary :: "response \<Rightarrow> response" where
  "error_boundary res = res\<lparr>status := 500, resp_body := ErrorJson ''Internal Server Error''\<rparr>"

text \<open>
  Modelled from the spec: \<^verbatim>\<open>signup\<close> of \<^verbatim>\<open>src/controllers/auth.controller.js\<close>, which
  is not among the sources. Section 4.6: "On validation failure: HTTP 400 with a
  human-readable, comma-joined list of field errors. On \<^verbatim>\<open>UserAlreadyExists\<close>: HTTP 409.
  On success: issue token from the returned user's claims, set session cookie, respond
  HTTP 201 with the user projection"; the cookie's name is \<^verbatim>\<open>token\<close> (section 6).
\<close>

definition signup :: "deps \<Rightarrow> nat \<Rightarrow> request \<Rightarrow> response \<Rightarrow> world \<Rightarrow> response \<times> world" where
  "signup d now req res w =
     (case signupSchema d (req_body req) of
        Inl errs \<Rightarrow> (res\<lparr>status := 400, resp_body := ErrorJson (formatValidationError errs)\<rparr>, w)
      | Inr i \<Rightarrow>
          (case createUser d now (in_name i) (in_email i) (in_password i) (in_role i) w of
             (Inl UserAlreadyExists, w') \<Rightarrow>
               (res\<lparr>status := 409, resp_body := ErrorJson ''Email already exists''\<rparr>, w')
           | (Inl e, w') \<Rightarrow> (error_boundary res, w')
           | (Inr u, w') \<Rightarrow>
               (cookies_set (node_env d) (res\<lparr>status := 201, resp_body := UserJson u\<rparr>) ''token''
                  (jwt_sign d \<lparr>claim_id = field u ''id'', claim_email = field u ''email'',
                                claim_role = field u ''role''\<rparr>)
                  no_overrides,
                w')))"

text \<open>
  Modelled from the spec: \<^verbatim>\<open>signIn\<close> of the same absent file. Section 4.6: "On
  validation failure: HTTP 400. On \<^verbatim>\<open>UserNotFound\<close> or \<^verbatim>\<open>InvalidCredentials\<close>: HTTP 401.
  On success: issue token, set cookie, respond HTTP 200 with user projection".
\<close>

definition signIn :: "deps \<Rightarrow> request \<Rightarrow> response \<Rightarrow> world \<Rightarrow> response \<times> world" where
  "signIn d req res w =
     (case signInSchema d (req_body req) of
        Inl errs \<Rightarrow> (res\<lparr>status := 400, resp_body := ErrorJson (formatValidationError errs)\<rparr>, w)
      | Inr (em, pw) \<Rightarrow>
          (case authenticateUser d em pw w of
             (Inl UserNotFound, w') \<Rightarrow>
               (res\<lparr>status := 401, resp_body := ErrorJson ''User not found''\<rparr>, w')
           | (Inl InvalidCredentials, w') \<Rightarrow>
               (res\<lparr>status := 401, resp_body := ErrorJson ''Invalid password''\<rparr>, w')
           | (Inl e, w') \<Rightarrow> (error_boundary res, w')
           | (Inr u, w') \<Rightarrow>
               (cookies_set (node_env d) (res\<lparr>status := 200, resp_body := UserJson u\<rparr>) ''token''
                  (jwt_sign d \<lparr>claim_id = field u ''id'', claim_email = field u ''email'',
                                claim_role = field u ''role''\<rparr>)
                  no_overrides,
                w')))"

text \<open>
  Modelled from the spec: \<^verbatim>\<open>signOut\<close> of the same absent file. Section 4.6: "no input
  validation. Clears the session cookie. Responds HTTP 200 unconditionally".
\<close>

definition signOut :: "deps \<Rightarrow> request \<Rightarrow> response \<Rightarrow> world \<Rightarrow> response \<times> world" where
  "signOut d req res w =
     (cookies_clear (node_env d) (res\<lparr>status := 200, resp_body := MessageJson ''User signed out''\<rparr>)
        ''token'' no_overrides,
      logger_info (Info ''User signed out'') w)"

section \<open>Routing\<close>

text \<open>
  The handlers the application registers, and the layers of an Express application in
  the order of registration: a middleware of a library, a route for a method and a path,
  and a router mounted under a path prefix.
\<close>

datatype handler_ref =
  HelloHandler | HealthHandler | ApiHandler | SignupHandler | SignInHandler | SignOutHandler

datatype middleware = Helmet | Cors | ExpressJson | ExpressUrlencoded | CookieParser | Morgan

datatype layer =
  Middleware middleware
| Route http_method string handler_ref
| Use string "(http_method \<times> string \<times> handler_ref) list"

subsection \<open>The middleware of the libraries\<close>

text \<open>
  A middleware passes the request on, possibly changed, or ends it with a response of
  its own. An error that a body parser raises skips the layers that follow and is
  answered by Express's default error handler with the status of the error.
\<close>

datatype mw_result = Next request | End response

definition error_page :: "nat \<Rightarrow> response" where
  "error_page n = \<lparr>status = n, resp_body = ErrorPage, resp_cookies = []\<rparr>"

text \<open>
  \<^verbatim>\<open>helmet()\<close> and \<^verbatim>\<open>cookieParser()\<close> pass every request on (the headers they set and the
  cookies they parse are not part of the response and request records beyond
  \<open>req_cookies\<close>). \<^verbatim>\<open>cors()\<close> with its default options answers every \<^verbatim>\<open>OPTIONS\<close> request
  itself with status 204. \<^verbatim>\<open>express.json()\<close> and \<^verbatim>\<open>express.urlencoded()\<close> store the fields
  of a payload of their type in \<^verbatim>\<open>req.body\<close>, raise the error of a payload they refuse,
  and pass every other request on. \<^verbatim>\<open>morgan\<close> passes the request on and writes its line
  when the response has been sent (see \<open>serve\<close>).
\<close>

fun run_middleware :: "middleware \<Rightarrow> request \<Rightarrow> mw_result" where
  "run_middleware Helmet req = Next req"
| "run_middleware Cors req =
     (if req_method req = OPTIONS
      then End \<lparr>status = 204, resp_body = NoBody, resp_cookies = []\<rparr>
      else Next req)"
| "run_middleware ExpressJson req =
     (case req_payload req of
        JsonObject b \<Rightarrow> Next (req\<lparr>req_body := b\<rparr>)
      | RejectedJson n \<Rightarrow> End (error_page n)
      | _ \<Rightarrow> Next req)"
| "run_middleware ExpressUrlencoded req =
     (case req_payload req of
        FormFields b \<Rightarrow> Next (req\<lparr>req_body := b\<rparr>)
      | RejectedForm n \<Rightarrow> End (error_page n)
      | _ \<Rightarrow> Next req)"
| "run_middleware CookieParser req = Next req"
| "run_middleware Morgan req = Next req"

subsection \<open>Matching a request against a layer\<close>

text \<open>
  Express's matching with the default settings (case-insensitive routing, no strict
  routing), as the router of Express 5 does it for the literal paths of this
  application. Letters are compared without regard to case.
\<close>

definition lower_char :: "char \<Rightarrow> char" where
  "lower_char c =
     (case map_of (zip ''ABCDEFGHIJKLMNOPQRSTUVWXYZ'' ''abcdefghijklmnopqrstuvwxyz'') c of
        Some l \<Rightarrow> l
      | None \<Rightarrow> c)"

definition lowercase :: "string \<Rightarrow> string" where
  "lowercase p = map lower_char p"

text \<open>The path of a layer loses its trailing slashes, unless it is the root path.\<close>

definition loosen :: "string \<Rightarrow> string" where
  "loosen pat = (if pat = ''/'' then pat else rev (dropWhile (\<lambda>c. c = CHR ''/'') (rev pat)))"

text \<open>A route matches the path itself and the path with one trailing slash.\<close>

definition path_matches :: "string \<Rightarrow> string \<Rightarrow> bool" where
  "path_matches pat p =
     (lowercase p = lowercase (loosen pat) \<or> lowercase p = lowercase (loosen pat) @ ''/'')"

text \<open>A route for \<^verbatim>\<open>GET\<close> also takes the \<^verbatim>\<open>HEAD\<close> requests.\<close>

definition method_matches :: "http_method \<Rightarrow> http_method \<Rightarrow> bool" where
  "method_matches m rm = (rm = m \<or> (rm = HEAD \<and> m = GET))"

text \<open>
  The path a mounted router sees: the request path with the mount prefix removed, when
  the prefix ends at a segment boundary; the router sees \<^verbatim>\<open>/\<close> when nothing is left.
\<close>

definition mount_path :: "string \<Rightarrow> string \<Rightarrow> string option" where
  "mount_path pre p =
     (if lowercase (take (length (loosen pre)) p) = lowercase (loosen pre)
      then (case drop (length (loosen pre)) p of
              [] \<Rightarrow> Some ''/''
            | ch # rest \<Rightarrow> if ch = CHR ''/'' then Some (ch # rest) else None)
      else None)"

fun route_lookup :: "(http_method \<times> string \<times> handler_ref) list \<Rightarrow> http_method \<Rightarrow> string \<Rightarrow> handler_ref option" where
  "route_lookup [] m p = None"
| "route_lookup ((m', p', h) # rs) m p =
     (if method_matches m' m \<and> path_matches p' p then Some h else route_lookup rs m p)"

text \<open>
  Where a request ends up: a middleware ended it, a handler is reached (with the request
  as the middleware left it), or no layer takes it. The flag records whether the request
  has passed \<^verbatim>\<open>morgan\<close>.
\<close>

datatype dispatched = Ended response | Reached handler_ref request bool | Unmatched bool

fun dispatch :: "layer list \<Rightarrow> bool \<Rightarrow> request \<Rightarrow> dispatched" where
  "dispatch [] lg req = Unmatched lg"
| "dispatch (Middleware mw # ls) lg req =
     (case run_middleware mw req of
        End res \<Rightarrow> Ended res
      | Next req' \<Rightarrow> dispatch ls (lg \<or> mw = Morgan) req')"
| "dispatch (Route m p h # ls) lg req =
     (if method_matches m (req_method req) \<and> path_matches p (req_path req)
      then Reached h req lg
      else dispatch ls lg req)"
| "dispatch (Use pre router # ls) lg req =
     (case mount_path pre (req_path req) of
        None \<Rightarrow> dispatch ls lg req
      | Some rest \<Rightarrow>
          (case route_lookup router (req_method req) rest of
             Some h \<Rightarrow> Reached h req lg
           | None \<Rightarrow> dispatch ls lg req))"

text \<open>
  Modelled from the spec: the router of \<^verbatim>\<open>src/routes/auth.routes.js\<close>, which is not among
  the sources. Section 6: "POST \<^verbatim>\<open>/sign-up\<close>, POST \<^verbatim>\<open>/sign-in\<close>, POST \<^verbatim>\<open>/sign-out\<close>",
  handled by \<^verbatim>\<open>signup\<close>, \<^verbatim>\<open>signIn\<close> and \<^verbatim>\<open>signOut\<close>.
\<close>

definition authRoutes :: "(http_method \<times> string \<times> handler_ref) list" where
  "authRoutes =
     [(POST, ''/sign-up'', SignupHandler),
      (POST, ''/sign-in'', SignInHandler),
      (POST, ''/sign-out'', SignOutHandler)]"

section \<open>\<^verbatim>\<open>src/app.js\<close>\<close>

text \<open>
  \<^verbatim>\<open>res.send(body)\<close> and \<^verbatim>\<open>res.json(body)\<close> of Express: a \<^verbatim>\<open>GET\<close> or \<^verbatim>\<open>HEAD\<close> request whose
  cache validators match the body is answered with status 304; a response with status
  204 or 304 and the response to a \<^verbatim>\<open>HEAD\<close> request carry no body.
\<close>

definition fresh :: "deps \<Rightarrow> request \<Rightarrow> response \<Rightarrow> response_body \<Rightarrow> bool" where
  "fresh d req res b =
     ((req_method req = GET \<or> req_method req = HEAD)
      \<and> ((200 \<le> status res \<and> status res < 300) \<or> status res = 304)
      \<and> validators_match d (req_headers req) b)"

definition send :: "deps \<Rightarrow> request \<Rightarrow> response \<Rightarrow> response_body \<Rightarrow> response" where
  "send d req res b =
     (let st = (if fresh d req res b then 304 else status res)
      in res\<lparr>status := st,
              resp_body := (if st = 204 \<or> st = 304 \<or> req_method req = HEAD then NoBody else b)\<rparr>)"

text \<open>
  \<^verbatim>\<open>app.get('/', (req, res) => { logger.info('Hello from acquisitions!');\<close>
  \<^verbatim>\<open>res.status(200).send('Hello from acquisitions!'); });\<close>
\<close>

definition hello :: "deps \<Rightarrow> request \<Rightarrow> response \<Rightarrow> world \<Rightarrow> response \<times> world" where
  "hello d req res w =
     (send d req (res\<lparr>status := 200\<rparr>) (Text ''Hello from acquisitions!''),
      logger_info (Info ''Hello from acquisitions!'') w)"

text \<open>
  \<^verbatim>\<open>app.get('/health', ...)\<close>: status 200 and the JSON of \<^verbatim>\<open>status: 'OK'\<close>, the current time
  and the uptime of the process.
\<close>

definition health :: "deps \<Rightarrow> nat \<Rightarrow> request \<Rightarrow> response \<Rightarrow> world \<Rightarrow> response \<times> world" where
  "health d now req res w =
     (send d req (res\<lparr>status := 200\<rparr>) (HealthJson ''OK'' now (now - started d)), w)"

text \<open>\<^verbatim>\<open>app.get('/api', ...)\<close>\<close>

definition api :: "deps \<Rightarrow> request \<Rightarrow> response \<Rightarrow> world \<Rightarrow> response \<times> world" where
  "api d req res w =
     (send d req (res\<lparr>status := 200\<rparr>) (MessageJson ''Acquisitions API is running''), w)"

text \<open>
  The application of \<^verbatim>\<open>src/app.js\<close> as the file stands under that name, the one that
  \<^verbatim>\<open>src/server.js\<close> imports: six \<^verbatim>\<open>app.use\<close> calls and the route of the root path.
\<close>

definition app :: "layer list" where
  "app =
     [Middleware Helmet,
      Middleware Cors,
      Middleware ExpressJson,
      Middleware ExpressUrlencoded,
      Middleware CookieParser,
      Middleware Morgan,
      Route GET ''/'' HelloHandler]"

text \<open>
  The application of the second copy of the file (the unnamed source \<^verbatim>\<open>part_001\<close>),
  which adds the health check, the API root and the mount of the authentication router:
  \<^verbatim>\<open>app.use('/api/auth', authRoutes)\<close>.
\<close>

definition app_part_001 :: "layer list" where
  "app_part_001 =
     [Middleware Helmet,
      Middleware Cors,
      Middleware ExpressJson,
      Middleware ExpressUrlencoded,
      Middleware CookieParser,
      Middleware Morgan,
      Route GET ''/'' HelloHandler,
      Route GET ''/health'' HealthHandler,
      Route GET ''/api'' ApiHandler,
      Use ''/api/auth'' authRoutes]"

text \<open>
  The response object a handler starts from, and Express's answer to a request that no
  layer takes.
\<close>

definition fresh_response :: response where
  "fresh_response = \<lparr>status = 200, resp_body = NoBody, resp_cookies = []\<rparr>"

definition not_found :: response where
  "not_found = \<lparr>status = 404, resp_body = ErrorPage, resp_cookies = []\<rparr>"

fun call_handler :: "deps \<Rightarrow> nat \<Rightarrow> handler_ref \<Rightarrow> request \<Rightarrow> response \<Rightarrow> world \<Rightarrow> response \<times> world" where
  "call_handler d now HelloHandler req res w = hello d req res w"
| "call_handler d now HealthHandler req res w = health d now req res w"
| "call_handler d now ApiHandler req res w = api d req res w"
| "call_handler d now SignupHandler req res w = signup d now req res w"
| "call_handler d now SignInHandler req res w = signIn d req res w"
| "call_handler d now SignOutHandler req res w = signOut d req res w"

text \<open>
  The stream given to \<^verbatim>\<open>morgan\<close>, \<^verbatim>\<open>write: msg => logger.info(msg.trim())\<close>: when the
  response to a request that has passed \<^verbatim>\<open>morgan\<close> is sent, a line with the method, the
  URL and the status goes to the log (the other fields of the line are left out).
\<close>

definition finish :: "bool \<Rightarrow> request \<Rightarrow> response \<times> world \<Rightarrow> response \<times> world" where
  "finish lg req out =
     (if lg
      then (fst out,
            logger_info (AccessLine (req_method req) (req_path req) (status (fst out))) (snd out))
      else out)"

text \<open>A request arrives with an empty \<^verbatim>\<open>req.body\<close> and goes through the layers.\<close>

definition arrive :: "layer list \<Rightarrow> request \<Rightarrow> dispatched" where
  "arrive layers req = dispatch layers False (req\<lparr>req_body := []\<rparr>)"

definition serve :: "deps \<Rightarrow> layer list \<Rightarrow> nat \<Rightarrow> request \<Rightarrow> world \<Rightarrow> response \<times> world" where
  "serve d layers now req w =
     (case arrive layers req of
        Ended res \<Rightarrow> (res, w)
      | Unmatched lg \<Rightarrow> finish lg req (not_found, w)
      | Reached h req' lg \<Rightarrow> finish lg req (call_handler d now h req' fresh_response w))"

text \<open>A run of the server: the requests in the order they arrive, each with its time.\<close>

fun run_requests :: "deps \<Rightarrow> layer list \<Rightarrow> world \<Rightarrow> (nat \<times> request) list \<Rightarrow> world" where
  "run_requests d layers w [] = w"
| "run_requests d layers w ((now, req) # xs) =
     run_requests d layers (snd (serve d layers now req w)) xs"

section \<open>Notions used in the statements\<close>

text \<open>The values of the \<^verbatim>\<open>email\<close> column, row by row.\<close>

definition emails :: "store \<Rightarrow> sqlval list" where
  "emails st = map (\<lambda>r. field r ''email'') (rows st)"

text \<open>Whether the body parsers let a payload through.\<close>

fun parsers_accept :: "payload \<Rightarrow> bool" where
  "parsers_accept (RejectedJson n) = False"
| "parsers_accept (RejectedForm n) = False"
| "parsers_accept p = True"

text \<open>
  A request for \<^verbatim>\<open>GET /\<close> that the body parsers let through and whose cache validators do
  not match the greeting.
\<close>

definition plain_root_request :: "deps \<Rightarrow> request \<Rightarrow> bool" where
  "plain_root_request d req =
     (req_method req = GET \<and> req_path req = ''/'' \<and> parsers_accept (req_payload req)
      \<and> \<not> validators_match d (req_headers req) (Text ''Hello from acquisitions!''))"

text \<open>The request as the handlers see it, after the body parsers.\<close>

definition parsed :: "request \<Rightarrow> request" where
  "parsed req =
     (case req_payload req of
        JsonObject b \<Rightarrow> req\<lparr>req_body := b\<rparr>
      | FormFields b \<Rightarrow> req\<lparr>req_body := b\<rparr>
      | _ \<Rightarrow> req\<lparr>req_body := []\<rparr>)"

text \<open>
  The example of the spec's section 8: Ann's sign-up request, the values its insert
  carries, and stand-ins for the hasher, the token issuer, the format checks and the
  test of the cache validators.
\<close>

definition ann_values :: "(string \<times> sqlval) list" where
  "ann_values = [(''name'', StrV ''Ann''), (''email'', StrV ''ann@x.com''), (''password'', StrV ''$2b$10$hash'')]"

definition example_deps :: deps where
  "example_deps = \<lparr>hashPassword = (\<lambda>p. ''$2b$10$'' @ rev p), comparePassword = (\<lambda>p h. h = ''$2b$10$'' @ rev p),
     jwt_sign = (\<lambda>c. ''token''), email_format = (\<lambda>e. CHR ''@'' \<in> set e),
     password_format = (\<lambda>p. 6 \<le> length p), node_env = Str ''production'', started = 0,
     validators_match = (\<lambda>hs b. map_of hs ''if-none-match'' = Some ''*'')\<rparr>"

definition ann_signup :: request where
  "ann_signup = \<lparr>req_method = POST, req_path = ''/api/auth/sign-up'', req_headers = [],
     req_cookies = [],
     req_payload = JsonObject [(''name'', Str ''Ann''), (''email'', Str ''ann@x.com''),
                 (''password'', Str ''Secret123''), (''role'', Str ''user'')],
     req_body = [(''name'', Str ''Ann''), (''email'', Str ''ann@x.com''),
                 (''password'', Str ''Secret123''), (''role'', Str ''user'')]\<rparr>"

text \<open>
  Four more requests: a plain \<^verbatim>\<open>GET /\<close>; a \<^verbatim>\<open>GET /\<close> that announces JSON and carries text
  that does not parse; a \<^verbatim>\<open>GET /\<close> with headers, a cookie and a JSON body; and Ann's
  sign-up sent to the path with the prefix in capital letters.
\<close>

definition plain_get :: request where
  "plain_get = \<lparr>req_method = GET, req_path = ''/'', req_headers = [], req_cookies = [],
     req_payload = NoPayload, req_body = []\<rparr>"

definition malformed_get :: request where
  "malformed_get = \<lparr>req_method = GET, req_path = ''/'',
     req_headers = [(''content-type'', ''application/json'')], req_cookies = [],
     req_payload = RejectedJson 400, req_body = []\<rparr>"

definition busy_get :: request where
  "busy_get = \<lparr>req_method = GET, req_path = ''/'',
     req_headers = [(''user-agent'', ''curl/8.5.0''), (''content-type'', ''application/json'')],
     req_cookies = [(''token'', ''abc'')],
     req_payload = JsonObject [(''name'', Str ''Ann'')], req_body = []\<rparr>"

definition shouted_signup :: request where
  "shouted_signup = ann_signup\<lparr>req_path := ''/API/AUTH/sign-up''\<rparr>"

section \<open>The schema and the store\<close>

lemma users_columns:
  "columns users =
     [\<lparr>col_name = ''id'', col_type = Serial, is_primary_key = True,
        is_not_null = True, is_unique = False, col_default = None\<rparr>,
      \<lparr>col_name = ''name'', col_type = Varchar 256, is_primary_key = False,
        is_not_null = True, is_unique = False, col_default = None\<rparr>,
      \<lparr>col_name = ''email'', col_type = Varchar 256, is_primary_key = False,
        is_not_null = True, is_unique = True, col_default = None\<rparr>,
      \<lparr>col_name = ''password'', col_type = Varchar 512, is_primary_key = False,
        is_not_null = True, is_unique = False, col_default = None\<rparr>,
      \<lparr>col_name = ''role'', col_type = Varchar 50, is_primary_key = False,
        is_not_null = True, is_unique = False, col_default = Some (DefaultValue ''user'')\<rparr>,
      \<lparr>col_name = ''create_at'', col_type = Timestamp, is_primary_key = False,
        is_not_null = True, is_unique = False, col_default = Some DefaultNow\<rparr>,
      \<lparr>col_name = ''update_at'', col_type = Timestamp, is_primary_key = False,
        is_not_null = True, is_unique = False, col_default = Some DefaultNow\<rparr>]"
  by (simp add: users_def pgTable_def serial_def varchar_def timestamp_def primaryKey_def
      notNull_def unique_def default_value_def defaultNow_def)

lemma users_migration_columns: "columns users_migration = columns users"
  by (simp add: users_columns users_migration_def create_table_def apply_constraint_def)

lemma users_eq_migration: "users = users_migration"
  using users_migration_columns
  by (simp add: users_def users_migration_def pgTable_def create_table_def)

lemma build_row_names: "build_row cs vals now seq = Inr r \<Longrightarrow> map fst r = map col_name cs"
  by (induction cs arbitrary: r) (auto split: sum.splits)

lemma build_row_field:
  "build_row cs vals now seq = Inr r \<Longrightarrow> distinct (map col_name cs) \<Longrightarrow> c \<in> set cs \<Longrightarrow>
     coerce c (column_value c vals now seq) = Inr (field r (col_name c))"
proof (induction cs arbitrary: r)
  case Nil
  then show ?case by simp
next
  case (Cons a cs)
  from Cons.prems(1) obtain v r' where v: "coerce a (column_value a vals now seq) = Inr v"
    and r': "build_row cs vals now seq = Inr r'" and r: "r = (col_name a, v) # r'"
    by (auto split: sum.splits)
  show ?case
  proof (cases "c = a")
    case True
    with v r show ?thesis by (simp add: field_def)
  next
    case False
    with Cons.prems have c: "c \<in> set cs" by simp
    from Cons.prems(2) have "col_name a \<notin> col_name ` set cs" by simp
    with c have ne: "col_name c \<noteq> col_name a" by (metis imageI)
    from Cons.IH [OF r' _ c] Cons.prems(2)
    have "coerce c (column_value c vals now seq) = Inr (field r' (col_name c))" by simp
    with ne r show ?thesis by (simp add: field_def)
  qed
qed

lemma check_not_null_None:
  "check_not_null cs r = None \<Longrightarrow> c \<in> set cs \<Longrightarrow> is_not_null c \<Longrightarrow> field r (col_name c) \<noteq> Null"
  by (induction cs) (auto split: if_splits)

lemma check_unique_None:
  "check_unique cs rs r = None \<Longrightarrow> c \<in> set cs \<Longrightarrow> is_unique c \<or> is_primary_key c \<Longrightarrow>
     field r (col_name c) \<noteq> Null \<Longrightarrow> field r (col_name c) \<notin> (\<lambda>r'. field r' (col_name c)) ` set rs"
  by (induction cs) (auto split: if_splits)

lemma db_insert_Inr:
  "db_insert t now vals st = (Inr r, st') \<Longrightarrow>
     build_row (columns t) vals now (id_seq st) = Inr r \<and> check_not_null (columns t) r = None
     \<and> check_unique (columns t) (rows st) r = None \<and> rows st' = rows st @ [r]"
  by (auto simp: db_insert_def Let_def split: sum.splits option.splits if_splits)

lemma db_insert_Inl: "db_insert t now vals st = (Inl e, st') \<Longrightarrow> rows st' = rows st"
  by (auto simp: db_insert_def Let_def split: sum.splits option.splits if_splits)

lemma coerce_varchar:
  "coerce c v = Inr w \<Longrightarrow> col_type c = Varchar n \<Longrightarrow> w = Null \<or> (\<exists>s. w = StrV s \<and> length s \<le> n)"
  by (cases v) (auto split: if_splits)

lemma coerce_fits:
  "col_type c = Varchar n \<Longrightarrow> length s \<le> n \<Longrightarrow> coerce c (StrV s) = Inr (StrV s)"
  by simp

lemma users_distinct: "distinct (map col_name (columns users))"
  by (simp add: users_columns)

lemma insert_users_column:
  assumes ins: "db_insert users now vals st = (Inr r, st')" and c: "c \<in> set (columns users)"
  shows "coerce c (column_value c vals now (id_seq st)) = Inr (field r (col_name c))"
    and "is_not_null c \<Longrightarrow> field r (col_name c) \<noteq> Null"
    and "is_unique c \<Longrightarrow> field r (col_name c) \<notin> (\<lambda>r'. field r' (col_name c)) ` set (rows st)"
proof -
  from db_insert_Inr [OF ins] have b: "build_row (columns users) vals now (id_seq st) = Inr r"
    and n: "check_not_null (columns users) r = None"
    and u: "check_unique (columns users) (rows st) r = None" by simp_all
  show "coerce c (column_value c vals now (id_seq st)) = Inr (field r (col_name c))"
    by (rule build_row_field [OF b users_distinct c])
  show nn: "field r (col_name c) \<noteq> Null" if "is_not_null c"
    by (rule check_not_null_None [OF n c that])
  show "field r (col_name c) \<notin> (\<lambda>r'. field r' (col_name c)) ` set (rows st)" if "is_unique c"
  proof -
    have "is_not_null c" using c that by (auto simp: users_columns)
    then have "field r (col_name c) \<noteq> Null" by (rule check_not_null_None [OF n c])
    with check_unique_None [OF u c] that show ?thesis by blast
  qed
qed

lemma insert_users_email:
  assumes ins: "db_insert users now vals st = (Inr r, st')"
  shows "\<exists>s. field r ''email'' = StrV s \<and> length s \<le> 256"
    and "field r ''email'' \<notin> set (emails st)"
    and "map_of vals ''email'' = Some (StrV e) \<Longrightarrow> length e \<le> 256 \<Longrightarrow> field r ''email'' = StrV e"
proof -
  define c where "c = \<lparr>col_name = ''email'', col_type = Varchar 256, is_primary_key = False,
        is_not_null = True, is_unique = True, col_default = None\<rparr>"
  have "c \<in> set (columns users)" by (simp add: users_columns c_def)
  note f = insert_users_column [OF ins this]
  from f(1) have "field r ''email'' = Null \<or> (\<exists>s. field r ''email'' = StrV s \<and> length s \<le> 256)"
    using coerce_varchar [of c _ _ 256] by (simp add: c_def)
  moreover from f(2) have "field r ''email'' \<noteq> Null" by (simp add: c_def)
  ultimately show "\<exists>s. field r ''email'' = StrV s \<and> length s \<le> 256" by blast
  from f(3) show "field r ''email'' \<notin> set (emails st)" by (simp add: c_def emails_def)
  from f(1) show "field r ''email'' = StrV e"
    if "map_of vals ''email'' = Some (StrV e)" "length e \<le> 256"
    using that by (simp add: c_def column_value_def)
qed

lemma insert_keeps_emails:
  assumes inv: "distinct (emails st) \<and> (\<forall>v \<in> set (emails st). \<exists>s. v = StrV s \<and> length s \<le> 256)"
  shows "distinct (emails (snd (db_insert users now vals st)))
     \<and> (\<forall>v \<in> set (emails (snd (db_insert users now vals st))). \<exists>s. v = StrV s \<and> length s \<le> 256)"
proof (cases "db_insert users now vals st")
  case (Pair res st')
  show ?thesis
  proof (cases res)
    case (Inl e)
    with Pair have "rows st' = rows st" by (simp add: db_insert_Inl)
    with inv Pair show ?thesis by (simp add: emails_def)
  next
    case (Inr r)
    with Pair have ins: "db_insert users now vals st = (Inr r, st')" by simp
    from db_insert_Inr [OF ins] have "emails st' = emails st @ [field r ''email'']"
      by (simp add: emails_def)
    with inv insert_users_email [OF ins] Pair show ?thesis by auto
  qed
qed

lemma run_inserts_emails:
  "distinct (emails st) \<and> (\<forall>v \<in> set (emails st). \<exists>s. v = StrV s \<and> length s \<le> 256) \<Longrightarrow>
   distinct (emails (run_inserts st xs))
     \<and> (\<forall>v \<in> set (emails (run_inserts st xs)). \<exists>s. v = StrV s \<and> length s \<le> 256)"
proof (induction xs arbitrary: st)
  case Nil
  then show ?case by simp
next
  case (Cons x xs)
  obtain now vals where x: "x = (now, vals)" by (cases x)
  from insert_keeps_emails [OF Cons.prems, of now vals] Cons.IH x show ?case by simp
qed

lemma distinct_select:
  "distinct (map f xs) \<Longrightarrow> length (filter (\<lambda>x. f x = v) xs) \<le> Suc 0"
  by (induction xs) (auto simp: filter_empty_conv image_iff)

lemma duplicate_email_rejected:
  assumes len: "length e \<le> 256" and mem: "StrV e \<in> set (emails st)"
    and v: "map_of vals ''email'' = Some (StrV e)"
  shows "\<exists>err. fst (db_insert users now vals st) = Inl err"
proof (cases "db_insert users now vals st")
  case (Pair res st')
  show ?thesis
  proof (cases res)
    case (Inl err)
    with Pair show ?thesis by simp
  next
    case (Inr r)
    with Pair have ins: "db_insert users now vals st = (Inr r, st')" by simp
    from insert_users_email(3) [OF ins v len] have "field r ''email'' = StrV e" .
    with insert_users_email(2) [OF ins] mem show ?thesis by simp
  qed
qed

lemma createUser_effect:
  assumes "createUser d now nm em pw rl w = (res, w')"
  shows "rows (db w') = rows (db w) \<and> (\<forall>u. res \<noteq> Inr u)
     \<or> (\<exists>r vals. db_insert users now vals (db w) = (Inr r, db w') \<and> res = Inr (projection r)
           \<and> map_of vals ''name'' = Some (StrV nm)
           \<and> map_of vals ''create_at'' = None \<and> map_of vals ''update_at'' = None)"
proof (cases "db_select_eq ''email'' (StrV em) (db w) = []")
  case False
  with assms show ?thesis by (auto simp: createUser_def)
next
  case True
  define vals where "vals = [(''name'', StrV nm), (''email'', StrV em), (''password'', StrV (hashPassword d pw))]
                @ (case rl of None \<Rightarrow> [] | Some r \<Rightarrow> [(''role'', StrV r)])"
  have m: "map_of vals ''name'' = Some (StrV nm)" "map_of vals ''create_at'' = None"
    "map_of vals ''update_at'' = None"
    by (simp_all add: vals_def split: option.splits)
  obtain out st where i: "db_insert users now vals (db w) = (out, st)"
    by (cases "db_insert users now vals (db w)")
  show ?thesis
  proof (cases out)
    case (Inl e)
    with assms True i have "res = Inl (StoreError e)" "w' = w\<lparr>db := st\<rparr>"
      by (simp_all add: createUser_def vals_def)
    with db_insert_Inl [of users now vals "db w" e st] i Inl show ?thesis by simp
  next
    case (Inr r)
    with assms True i have "res = Inr (projection r)" "db w' = st"
      by (auto simp: createUser_def vals_def logger_info_def)
    with i Inr m show ?thesis by blast
  qed
qed

lemma insert_users_timestamps:
  assumes ins: "db_insert users now vals st = (Inr r, st')"
    and "map_of vals ''create_at'' = None" and "map_of vals ''update_at'' = None"
  shows "field r ''create_at'' = TimeV now \<and> field r ''update_at'' = TimeV now"
proof -
  define c where "c = \<lparr>col_name = ''create_at'', col_type = Timestamp, is_primary_key = False,
        is_not_null = True, is_unique = False, col_default = Some DefaultNow\<rparr>"
  define u where "u = \<lparr>col_name = ''update_at'', col_type = Timestamp, is_primary_key = False,
        is_not_null = True, is_unique = False, col_default = Some DefaultNow\<rparr>"
  have "c \<in> set (columns users)" by (simp add: users_columns c_def)
  from insert_users_column(1) [OF ins this] assms(2)
  have "field r ''create_at'' = TimeV now" by (simp add: c_def column_value_def default_of_def)
  moreover have "u \<in> set (columns users)" by (simp add: users_columns u_def)
  from insert_users_column(1) [OF ins this] assms(3)
  have "field r ''update_at'' = TimeV now" by (simp add: u_def column_value_def default_of_def)
  ultimately show ?thesis by simp
qed

lemma insert_users_name:
  assumes ins: "db_insert users now vals st = (Inr r, st')"
    and "map_of vals ''name'' = Some (StrV nm)" and "length nm \<le> 256"
  shows "field r ''name'' = StrV nm"
proof -
  define c where "c = \<lparr>col_name = ''name'', col_type = Varchar 256, is_primary_key = False,
        is_not_null = True, is_unique = False, col_default = None\<rparr>"
  have "c \<in> set (columns users)" by (simp add: users_columns c_def)
  from insert_users_column(1) [OF ins this] assms(2,3)
  show ?thesis by (simp add: c_def column_value_def)
qed

lemma insert_users_role:
  assumes ins: "db_insert users now vals st = (Inr r, st')" and "map_of vals ''role'' = None"
  shows "field r ''role'' = StrV ''user''"
proof -
  define c where "c = \<lparr>col_name = ''role'', col_type = Varchar 50, is_primary_key = False,
        is_not_null = True, is_unique = False, col_default = Some (DefaultValue ''user'')\<rparr>"
  have "c \<in> set (columns users)" by (simp add: users_columns c_def)
  from insert_users_column(1) [OF ins this] assms(2)
  show ?thesis by (simp add: c_def column_value_def default_of_def)
qed

lemma signupSchema_name:
  "signupSchema d b = Inr i \<Longrightarrow> 1 \<le> length (in_name i) \<and> length (in_name i) \<le> 255"
  by (auto simp: signupSchema_def Let_def split: option.splits list.splits if_splits)

lemma signup_effect:
  assumes "signup d now req res w = (res', w')"
  shows "rows (db w') = rows (db w) \<and> status res' \<noteq> 201
     \<or> (\<exists>r nm. rows (db w') = rows (db w) @ [r] \<and> status res' = 201
           \<and> field r ''name'' = StrV nm \<and> 1 \<le> length nm \<and> length nm \<le> 255
           \<and> field r ''create_at'' = TimeV now \<and> field r ''update_at'' = TimeV now)"
proof (cases "signupSchema d (req_body req)")
  case (Inl errs)
  with assms show ?thesis by (auto simp: signup_def)
next
  case (Inr i)
  obtain out w1 where c: "createUser d now (in_name i) (in_email i) (in_password i) (in_role i) w = (out, w1)"
    by (cases "createUser d now (in_name i) (in_email i) (in_password i) (in_role i) w")
  from signupSchema_name [OF Inr] have len: "1 \<le> length (in_name i)" "length (in_name i) \<le> 255"
    by simp_all
  from createUser_effect [OF c] show ?thesis
  proof
    assume a: "rows (db w1) = rows (db w) \<and> (\<forall>u. out \<noteq> Inr u)"
    then obtain e where "out = Inl e" by (cases out) auto
    with assms Inr c a show ?thesis
      by (cases e) (auto simp: signup_def error_boundary_def)
  next
    assume "\<exists>r vals. db_insert users now vals (db w) = (Inr r, db w1) \<and> out = Inr (projection r)
           \<and> map_of vals ''name'' = Some (StrV (in_name i))
           \<and> map_of vals ''create_at'' = None \<and> map_of vals ''update_at'' = None"
    then obtain r vals where ins: "db_insert users now vals (db w) = (Inr r, db w1)"
      and out: "out = Inr (projection r)"
      and m: "map_of vals ''name'' = Some (StrV (in_name i))"
        "map_of vals ''create_at'' = None" "map_of vals ''update_at'' = None" by blast
    from assms Inr c out have "w' = w1" "status res' = 201"
      by (auto simp: signup_def cookies_set_def)
    moreover from db_insert_Inr [OF ins] have "rows (db w1) = rows (db w) @ [r]" by simp
    moreover from insert_users_name [OF ins m(1)] len have "field r ''name'' = StrV (in_name i)" by simp
    moreover note insert_users_timestamps [OF ins m(2,3)] len
    ultimately show ?thesis by blast
  qed
qed

lemma signIn_db: "db (snd (signIn d req res w)) = db w"
  by (auto simp: signIn_def authenticateUser_def logger_info_def
      split: sum.splits prod.splits list.splits sqlval.splits auth_error.splits)

lemma signOut_db: "db (snd (signOut d req res w)) = db w"
  by (simp add: signOut_def logger_info_def)

section \<open>Routing facts\<close>

lemma lower_char_slash: "lower_char c = CHR ''/'' \<longleftrightarrow> c = CHR ''/''"
proof
  assume a: "lower_char c = CHR ''/''"
  show "c = CHR ''/''"
  proof (cases "map_of (zip ''ABCDEFGHIJKLMNOPQRSTUVWXYZ'' ''abcdefghijklmnopqrstuvwxyz'') c")
    case None
    with a show ?thesis by (simp add: lower_char_def)
  next
    case (Some l)
    with a have l: "l = CHR ''/''" by (simp add: lower_char_def)
    from map_of_SomeD [OF Some] have "l \<in> set ''abcdefghijklmnopqrstuvwxyz''"
      by (rule set_zip_rightD)
    with l show ?thesis by simp
  qed
next
  assume "c = CHR ''/''"
  then show "lower_char c = CHR ''/''" by (simp add: lower_char_def)
qed

lemma loosen_lits: "loosen ''/api/auth'' = ''/api/auth''" "loosen ''/sign-up'' = ''/sign-up''"
  "loosen ''/sign-in'' = ''/sign-in''" "loosen ''/sign-out'' = ''/sign-out''"
  "loosen ''/'' = ''/''" "loosen ''/health'' = ''/health''" "loosen ''/api'' = ''/api''"
  by (simp_all add: loosen_def)

lemma lowercase_lits:
  "lowercase ''/api/auth'' = ''/api/auth''" "lowercase ''/sign-up'' = ''/sign-up''"
  "lowercase ''/sign-in'' = ''/sign-in''" "lowercase ''/sign-out'' = ''/sign-out''"
  "lowercase ''/'' = ''/''" "lowercase ''/health'' = ''/health''" "lowercase ''/api'' = ''/api''"
  by (simp_all add: lowercase_def lower_char_def)

lemma lowercase_append: "lowercase (xs @ ys) = lowercase xs @ lowercase ys"
  and lowercase_take: "lowercase (take n xs) = take n (lowercase xs)"
  and lowercase_drop: "lowercase (drop n xs) = drop n (lowercase xs)"
  and lowercase_length: "length (lowercase xs) = length xs"
  by (simp_all add: lowercase_def take_map drop_map)

lemma lowercase_slash: "lowercase q = CHR ''/'' # t \<Longrightarrow> \<exists>t'. q = CHR ''/'' # t' \<and> lowercase t' = t"
  by (cases q) (auto simp: lowercase_def lower_char_slash)

lemma mount_api_auth:
  "mount_path ''/api/auth'' p = Some rest \<longleftrightarrow>
     lowercase (take 9 p) = ''/api/auth''
     \<and> (drop 9 p = [] \<and> rest = ''/'' \<or> (\<exists>t. drop 9 p = CHR ''/'' # t \<and> rest = CHR ''/'' # t))"
proof -
  have len: "length ''/api/auth'' = 9" by simp
  show ?thesis
    unfolding mount_path_def loosen_lits lowercase_lits len by (auto split: list.splits)
qed

lemma middleware_chain:
  "dispatch (Middleware Helmet # Middleware Cors # Middleware ExpressJson
       # Middleware ExpressUrlencoded # Middleware CookieParser # Middleware Morgan # ls)
     False (req\<lparr>req_body := []\<rparr>) =
   (if req_method req = OPTIONS then Ended \<lparr>status = 204, resp_body = NoBody, resp_cookies = []\<rparr>
    else case req_payload req of
           RejectedJson n \<Rightarrow> Ended (error_page n)
         | RejectedForm n \<Rightarrow> Ended (error_page n)
         | _ \<Rightarrow> dispatch ls True (parsed req))"
  by (simp add: parsed_def split: payload.splits)


lemma route_lookup_authRoutes:
  "route_lookup authRoutes m q = Some h \<longleftrightarrow>
     m = POST \<and> ((h = SignupHandler \<and> (lowercase q = ''/sign-up'' \<or> lowercase q = ''/sign-up/''))
       \<or> (h = SignInHandler \<and> (lowercase q = ''/sign-in'' \<or> lowercase q = ''/sign-in/''))
       \<or> (h = SignOutHandler \<and> (lowercase q = ''/sign-out'' \<or> lowercase q = ''/sign-out/'')))"
  by (auto simp: authRoutes_def method_matches_def path_matches_def loosen_lits lowercase_lits)

lemma mounted_path:
  assumes "lowercase p = ''/api/auth'' @ CHR ''/'' # t"
  shows "\<exists>t'. mount_path ''/api/auth'' p = Some (CHR ''/'' # t') \<and> lowercase t' = t"
proof -
  have "lowercase (take 9 p) = ''/api/auth''" using assms by (simp add: lowercase_take)
  moreover have "lowercase (drop 9 p) = CHR ''/'' # t" using assms by (simp add: lowercase_drop)
  from lowercase_slash [OF this] obtain t' where "drop 9 p = CHR ''/'' # t'" "lowercase t' = t"
    by blast
  ultimately show ?thesis by (auto simp: mount_api_auth)
qed

lemma mounted_lowercase:
  assumes "mount_path ''/api/auth'' p = Some rest" and "rest \<noteq> ''/''"
  shows "lowercase p = ''/api/auth'' @ lowercase rest"
proof -
  from assms have a: "lowercase (take 9 p) = ''/api/auth''" and b: "drop 9 p = rest"
    by (auto simp: mount_api_auth)
  have "lowercase p = lowercase (take 9 p @ drop 9 p)" by simp
  also have "\<dots> = ''/api/auth'' @ lowercase rest" using a b by (simp only: lowercase_append)
  finally show ?thesis .
qed


lemma mount_route_iff:
  assumes q: "q = CHR ''/'' # t" "t \<noteq> []"
  shows "(\<exists>rest. mount_path ''/api/auth'' p = Some rest \<and> (lowercase rest = q \<or> lowercase rest = q @ ''/''))
     \<longleftrightarrow> (lowercase p = ''/api/auth'' @ q \<or> lowercase p = ''/api/auth'' @ q @ ''/'')"
proof
  assume "\<exists>rest. mount_path ''/api/auth'' p = Some rest \<and> (lowercase rest = q \<or> lowercase rest = q @ ''/'')"
  then obtain rest where m: "mount_path ''/api/auth'' p = Some rest"
    and r: "lowercase rest = q \<or> lowercase rest = q @ ''/''" by blast
  from r have "length (lowercase rest) = length q \<or> length (lowercase rest) = Suc (length q)"
    by auto
  with q have "2 \<le> length rest" by (cases t) (auto simp: lowercase_length)
  then have "rest \<noteq> ''/''" by auto
  from mounted_lowercase [OF m this] r
  show "lowercase p = ''/api/auth'' @ q \<or> lowercase p = ''/api/auth'' @ q @ ''/''" by auto
next
  assume "lowercase p = ''/api/auth'' @ q \<or> lowercase p = ''/api/auth'' @ q @ ''/''"
  then show "\<exists>rest. mount_path ''/api/auth'' p = Some rest \<and> (lowercase rest = q \<or> lowercase rest = q @ ''/'')"
  proof
    assume "lowercase p = ''/api/auth'' @ q"
    with q have "lowercase p = ''/api/auth'' @ CHR ''/'' # t" by simp
    from mounted_path [OF this] q show ?thesis by (auto simp: lowercase_def lower_char_slash)
  next
    assume "lowercase p = ''/api/auth'' @ q @ ''/''"
    with q have "lowercase p = ''/api/auth'' @ CHR ''/'' # (t @ ''/'')" by simp
    from mounted_path [OF this] q show ?thesis by (auto simp: lowercase_def lower_char_slash)
  qed
qed

lemma routes_part_001:
  "dispatch [Route GET ''/'' HelloHandler, Route GET ''/health'' HealthHandler,
             Route GET ''/api'' ApiHandler, Use ''/api/auth'' authRoutes] lg r =
     (if method_matches GET (req_method r) \<and> path_matches ''/'' (req_path r)
      then Reached HelloHandler r lg
      else if method_matches GET (req_method r) \<and> path_matches ''/health'' (req_path r)
      then Reached HealthHandler r lg
      else if method_matches GET (req_method r) \<and> path_matches ''/api'' (req_path r)
      then Reached ApiHandler r lg
      else case mount_path ''/api/auth'' (req_path r) of
             None \<Rightarrow> Unmatched lg
           | Some rest \<Rightarrow>
               (case route_lookup authRoutes (req_method r) rest of
                  Some h \<Rightarrow> Reached h r lg
                | None \<Rightarrow> Unmatched lg))"
  by (simp split: option.splits)

lemma routes_reach_auth:
  assumes h: "h \<in> {SignupHandler, SignInHandler, SignOutHandler}"
  shows "dispatch [Route GET ''/'' HelloHandler, Route GET ''/health'' HealthHandler,
                   Route GET ''/api'' ApiHandler, Use ''/api/auth'' authRoutes] lg r = Reached h r' lg'
     \<longleftrightarrow> r' = r \<and> lg' = lg
         \<and> (\<exists>rest. mount_path ''/api/auth'' (req_path r) = Some rest
               \<and> route_lookup authRoutes (req_method r) rest = Some h)"
proof
  assume "dispatch [Route GET ''/'' HelloHandler, Route GET ''/health'' HealthHandler,
                   Route GET ''/api'' ApiHandler, Use ''/api/auth'' authRoutes] lg r = Reached h r' lg'"
  with h show "r' = r \<and> lg' = lg
         \<and> (\<exists>rest. mount_path ''/api/auth'' (req_path r) = Some rest
               \<and> route_lookup authRoutes (req_method r) rest = Some h)"
    unfolding routes_part_001 by (auto split: if_splits option.splits)
next
  assume a: "r' = r \<and> lg' = lg
         \<and> (\<exists>rest. mount_path ''/api/auth'' (req_path r) = Some rest
               \<and> route_lookup authRoutes (req_method r) rest = Some h)"
  then obtain rest where m: "mount_path ''/api/auth'' (req_path r) = Some rest"
    and l: "route_lookup authRoutes (req_method r) rest = Some h" by blast
  from l have "req_method r = POST" by (simp add: route_lookup_authRoutes)
  then have "\<not> method_matches GET (req_method r)" by (simp add: method_matches_def)
  with a m l show "dispatch [Route GET ''/'' HelloHandler, Route GET ''/health'' HealthHandler,
                   Route GET ''/api'' ApiHandler, Use ''/api/auth'' authRoutes] lg r = Reached h r' lg'"
    unfolding routes_part_001 by simp
qed


lemma parsed_fields:
  "req_method (parsed req) = req_method req" "req_path (parsed req) = req_path req"
  "req_headers (parsed req) = req_headers req"
  by (simp_all add: parsed_def split: payload.splits)

lemma dispatch_part_001:
  "arrive app_part_001 req =
   (if req_method req = OPTIONS then Ended \<lparr>status = 204, resp_body = NoBody, resp_cookies = []\<rparr>
    else case req_payload req of
           RejectedJson n \<Rightarrow> Ended (error_page n)
         | RejectedForm n \<Rightarrow> Ended (error_page n)
         | _ \<Rightarrow> dispatch [Route GET ''/'' HelloHandler, Route GET ''/health'' HealthHandler,
                            Route GET ''/api'' ApiHandler, Use ''/api/auth'' authRoutes]
                  True (parsed req))"
  unfolding app_part_001_def arrive_def by (rule middleware_chain)

lemma dispatch_app:
  "arrive app req =
   (if req_method req = OPTIONS then Ended \<lparr>status = 204, resp_body = NoBody, resp_cookies = []\<rparr>
    else case req_payload req of
           RejectedJson n \<Rightarrow> Ended (error_page n)
         | RejectedForm n \<Rightarrow> Ended (error_page n)
         | _ \<Rightarrow> dispatch [Route GET ''/'' HelloHandler] True (parsed req))"
  unfolding app_def arrive_def by (rule middleware_chain)

lemma accepted_dispatch:
  assumes "req_method req \<noteq> OPTIONS" and "parsers_accept (req_payload req)"
  shows "arrive app_part_001 req =
           dispatch [Route GET ''/'' HelloHandler, Route GET ''/health'' HealthHandler,
                     Route GET ''/api'' ApiHandler, Use ''/api/auth'' authRoutes] True (parsed req)"
    and "arrive app req =
           dispatch [Route GET ''/'' HelloHandler] True (parsed req)"
  using assms by (cases "req_payload req"; simp add: dispatch_part_001 dispatch_app)+

lemma refused_dispatch:
  assumes "req_method req = OPTIONS \<or> \<not> parsers_accept (req_payload req)"
  shows "\<exists>res. arrive app_part_001 req = Ended res"
    and "\<exists>res. arrive app req = Ended res"
  using assms by (cases "req_payload req"; auto simp: dispatch_part_001 dispatch_app)+

lemma auth_reached:
  assumes h: "(h, q) \<in> {(SignupHandler, ''/sign-up''), (SignInHandler, ''/sign-in''),
                          (SignOutHandler, ''/sign-out'')}"
  shows "arrive app_part_001 req = Reached h r lg \<longleftrightarrow>
     r = parsed req \<and> lg \<and> req_method req = POST \<and> parsers_accept (req_payload req)
     \<and> (lowercase (req_path req) = ''/api/auth'' @ q
          \<or> lowercase (req_path req) = ''/api/auth'' @ q @ ''/'')"
proof -
  from h obtain t where q: "q = CHR ''/'' # t" "t \<noteq> []" by auto
  from h have hh: "h \<in> {SignupHandler, SignInHandler, SignOutHandler}" by auto
  have l: "route_lookup authRoutes m rest = Some h \<longleftrightarrow>
       m = POST \<and> (lowercase rest = q \<or> lowercase rest = q @ ''/'')" for m rest
    using h by (auto simp: route_lookup_authRoutes)
  have e: "(\<exists>rest. mount_path ''/api/auth'' (req_path req) = Some rest
               \<and> route_lookup authRoutes (req_method req) rest = Some h)
       \<longleftrightarrow> req_method req = POST
            \<and> (lowercase (req_path req) = ''/api/auth'' @ q
                 \<or> lowercase (req_path req) = ''/api/auth'' @ q @ ''/'')"
    using mount_route_iff [OF q, of "req_path req"] by (auto simp: l)
  show ?thesis
  proof (cases "req_method req = OPTIONS \<or> \<not> parsers_accept (req_payload req)")
    case True
    with refused_dispatch(1) [OF True] show ?thesis by auto
  next
    case False
    then have "arrive app_part_001 req =
           dispatch [Route GET ''/'' HelloHandler, Route GET ''/health'' HealthHandler,
                     Route GET ''/api'' ApiHandler, Use ''/api/auth'' authRoutes] True (parsed req)"
      using accepted_dispatch(1) by blast
    with False e show ?thesis
      using routes_reach_auth [OF hh, of True "parsed req" r lg]
      by (auto simp: parsed_fields)
  qed
qed

lemma auth_served:
  assumes h: "(h, q) \<in> {(SignupHandler, ''/sign-up''), (SignInHandler, ''/sign-in''),
                          (SignOutHandler, ''/sign-out'')}"
    and "req_method req = POST" and "parsers_accept (req_payload req)"
    and "lowercase (req_path req) = ''/api/auth'' @ q
          \<or> lowercase (req_path req) = ''/api/auth'' @ q @ ''/''"
  shows "serve d app_part_001 now req w =
           finish True req (call_handler d now h (parsed req) fresh_response w)"
proof -
  from auth_reached [OF h, of req "parsed req" True] assms(2-)
  have "arrive app_part_001 req = Reached h (parsed req) True" by simp
  then show ?thesis by (simp add: serve_def)
qed

section \<open>What serving a request does to the rows\<close>

lemma finish_db: "db (snd (finish lg req out)) = db (snd out)"
  by (simp add: finish_def logger_info_def)

lemma call_handler_rows:
  assumes "call_handler d now h req res w = (res', w')"
  shows "rows (db w') = rows (db w)
     \<or> (\<exists>r nm. rows (db w') = rows (db w) @ [r]
           \<and> field r ''name'' = StrV nm \<and> 1 \<le> length nm \<and> length nm \<le> 255)"
proof (cases h)
  case SignupHandler
  with assms signup_effect [of d now req res w res' w'] show ?thesis by auto
next
  case SignInHandler
  with assms signIn_db [of d req res w] show ?thesis by simp
next
  case SignOutHandler
  with assms signOut_db [of d req res w] show ?thesis by simp
next
  case HelloHandler
  with assms show ?thesis by (auto simp: hello_def logger_info_def)
next
  case HealthHandler
  with assms show ?thesis by (auto simp: health_def)
next
  case ApiHandler
  with assms show ?thesis by (auto simp: api_def)
qed

lemma serve_rows:
  assumes "serve d layers now req w = (res, w')"
  shows "rows (db w') = rows (db w)
     \<or> (\<exists>r nm. rows (db w') = rows (db w) @ [r]
           \<and> field r ''name'' = StrV nm \<and> 1 \<le> length nm \<and> length nm \<le> 255)"
proof (cases "arrive layers req")
  case (Ended r)
  with assms show ?thesis by (simp add: serve_def)
next
  case (Unmatched lg)
  with assms have "db w' = db w" using finish_db [of lg req "(not_found, w)"]
    by (simp add: serve_def)
  then show ?thesis by simp
next
  case (Reached h req' lg)
  obtain res1 w1 where c: "call_handler d now h req' fresh_response w = (res1, w1)"
    by (cases "call_handler d now h req' fresh_response w")
  with assms Reached have "db w' = db w1" using finish_db [of lg req "(res1, w1)"]
    by (simp add: serve_def)
  with call_handler_rows [OF c] show ?thesis by simp
qed

lemma run_requests_names:
  "\<forall>r \<in> set (rows (db w)). \<exists>s. field r ''name'' = StrV s \<and> 1 \<le> length s \<and> length s \<le> 255 \<Longrightarrow>
   \<forall>r \<in> set (rows (db (run_requests d layers w reqs))).
      \<exists>s. field r ''name'' = StrV s \<and> 1 \<le> length s \<and> length s \<le> 255"
proof (induction reqs arbitrary: w)
  case Nil
  then show ?case by simp
next
  case (Cons x reqs)
  obtain now req where x: "x = (now, req)" by (cases x)
  obtain res w' where s: "serve d layers now req w = (res, w')" by (cases "serve d layers now req w")
  from serve_rows [OF s] Cons.prems
  have "\<forall>r \<in> set (rows (db w')). \<exists>s. field r ''name'' = StrV s \<and> 1 \<le> length s \<and> length s \<le> 255"
    by auto
  from Cons.IH [OF this] x s show ?case by simp
qed

lemma run_requests_rows:
  "\<exists>rs. rows (db (run_requests d layers w reqs)) = rows (db w) @ rs"
proof (induction reqs arbitrary: w)
  case Nil
  then show ?case by simp
next
  case (Cons x reqs)
  obtain now req where x: "x = (now, req)" by (cases x)
  obtain res w' where s: "serve d layers now req w = (res, w')" by (cases "serve d layers now req w")
  from serve_rows [OF s] obtain rs1 where "rows (db w') = rows (db w) @ rs1" by auto
  moreover from Cons.IH [of w'] obtain rs2 where
    "rows (db (run_requests d layers w' reqs)) = rows (db w') @ rs2" by blast
  ultimately show ?case using x s by simp
qed

section \<open>The landing endpoint and the unmounted router\<close>

lemma hello_reached:
  assumes "plain_root_request d req"
  shows "arrive app req = Reached HelloHandler (parsed req) True"
    and "arrive app_part_001 req = Reached HelloHandler (parsed req) True"
proof -
  from assms have m: "req_method req \<noteq> OPTIONS" and a: "parsers_accept (req_payload req)"
    and g: "req_method req = GET" and p: "req_path req = ''/''"
    by (simp_all add: plain_root_request_def)
  have pm: "path_matches ''/'' ''/''" by (simp add: path_matches_def loosen_lits lowercase_lits)
  from accepted_dispatch(2) [OF m a] g p pm
  show "arrive app req = Reached HelloHandler (parsed req) True"
    by (simp add: parsed_fields method_matches_def)
  from accepted_dispatch(1) [OF m a] g p pm
  show "arrive app_part_001 req = Reached HelloHandler (parsed req) True"
    by (simp add: routes_part_001 parsed_fields method_matches_def)
qed

lemma hello_response:
  assumes "req_method req = GET" and "\<not> validators_match d (req_headers req) (Text ''Hello from acquisitions!'')"
  shows "fst (hello d req fresh_response w) =
           \<lparr>status = 200, resp_body = Text ''Hello from acquisitions!'', resp_cookies = []\<rparr>"
  using assms by (simp add: hello_def send_def fresh_def fresh_response_def Let_def)

lemma plain_root_served:
  assumes "plain_root_request d req"
  shows "fst (serve d app now req w) =
           \<lparr>status = 200, resp_body = Text ''Hello from acquisitions!'', resp_cookies = []\<rparr>"
    and "fst (serve d app_part_001 now req w) =
           \<lparr>status = 200, resp_body = Text ''Hello from acquisitions!'', resp_cookies = []\<rparr>"
proof -
  from assms have g: "req_method (parsed req) = GET"
    and v: "\<not> validators_match d (req_headers (parsed req)) (Text ''Hello from acquisitions!'')"
    by (simp_all add: plain_root_request_def parsed_fields)
  from hello_response [OF g v] hello_reached [OF assms]
  show "fst (serve d app now req w) =
           \<lparr>status = 200, resp_body = Text ''Hello from acquisitions!'', resp_cookies = []\<rparr>"
    and "fst (serve d app_part_001 now req w) =
           \<lparr>status = 200, resp_body = Text ''Hello from acquisitions!'', resp_cookies = []\<rparr>"
    by (simp_all add: serve_def finish_def)
qed

lemma malformed_get_served:
  "serve d app now malformed_get w = (error_page 400, w)"
  "serve d app_part_001 now malformed_get w = (error_page 400, w)"
  by (simp_all add: serve_def dispatch_app dispatch_part_001 malformed_get_def)

lemma named_app_mounts_no_router:
  "req_method req = POST \<Longrightarrow> parsers_accept (req_payload req) \<Longrightarrow>
     serve d app now req w = finish True req (not_found, w)"
  using accepted_dispatch(2) [of req]
  by (simp add: serve_def parsed_fields method_matches_def)

section \<open>The example of the spec, evaluated\<close>

lemma ann_insert:
  "db_insert users 5 ann_values empty_store =
     (Inr [(''id'', IntV 1), (''name'', StrV ''Ann''), (''email'', StrV ''ann@x.com''),
           (''password'', StrV ''$2b$10$hash''), (''role'', StrV ''user''),
           (''create_at'', TimeV 5), (''update_at'', TimeV 5)],
      \<lparr>rows = [[(''id'', IntV 1), (''name'', StrV ''Ann''), (''email'', StrV ''ann@x.com''),
           (''password'', StrV ''$2b$10$hash''), (''role'', StrV ''user''),
           (''create_at'', TimeV 5), (''update_at'', TimeV 5)]], id_seq = 2\<rparr>)"
  by (simp add: db_insert_def users_columns uses_sequence_def column_value_def default_of_def
      field_def Let_def ann_values_def empty_store_def)

lemma ann_signup_handled:
  "signup example_deps 7 ann_signup fresh_response initial_world =
     (\<lparr>status = 201,
        resp_body = UserJson [(''id'', IntV 1), (''name'', StrV ''Ann''), (''email'', StrV ''ann@x.com''),
           (''role'', StrV ''user''), (''create_at'', TimeV 7), (''update_at'', TimeV 7)],
        resp_cookies = [SetCookie ''token'' ''token''
           \<lparr>httpOnly = True, secure = True, sameSite = ''strict'', maxAge = 900000\<rparr>]\<rparr>,
      \<lparr>db = \<lparr>rows = [[(''id'', IntV 1), (''name'', StrV ''Ann''), (''email'', StrV ''ann@x.com''),
           (''password'', StrV ''$2b$10$321terceS''), (''role'', StrV ''user''),
           (''create_at'', TimeV 7), (''update_at'', TimeV 7)]], id_seq = 2\<rparr>,
        log = [UserCreated (StrV ''ann@x.com'') (StrV ''user'')]\<rparr>)"
  apply (simp add: signup_def signupSchema_def str_field_def example_deps_def ann_signup_def Let_def)
  apply (simp add: createUser_def db_select_eq_def initial_world_def empty_store_def)
  apply (simp add: db_insert_def users_columns uses_sequence_def column_value_def default_of_def
      field_def Let_def)
  apply (simp add: logger_info_def projection_def cookies_set_def fresh_response_def getOptions_def
      merge_options_def no_overrides_def field_def)
  done

lemma parsed_ann: "parsed ann_signup = ann_signup" "parsed shouted_signup = shouted_signup"
  by (simp_all add: parsed_def ann_signup_def shouted_signup_def)

lemma ann_signup_served:
  "serve example_deps app_part_001 7 ann_signup initial_world =
     finish True ann_signup (signup example_deps 7 ann_signup fresh_response initial_world)"
  using auth_served [of SignupHandler "''/sign-up''" ann_signup example_deps 7 initial_world]
  by (simp add: parsed_ann) (simp add: ann_signup_def lowercase_def lower_char_def)

lemma shouted_signup_handled:
  "signup example_deps 7 shouted_signup fresh_response initial_world =
     (\<lparr>status = 201,
        resp_body = UserJson [(''id'', IntV 1), (''name'', StrV ''Ann''), (''email'', StrV ''ann@x.com''),
           (''role'', StrV ''user''), (''create_at'', TimeV 7), (''update_at'', TimeV 7)],
        resp_cookies = [SetCookie ''token'' ''token''
           \<lparr>httpOnly = True, secure = True, sameSite = ''strict'', maxAge = 900000\<rparr>]\<rparr>,
      \<lparr>db = \<lparr>rows = [[(''id'', IntV 1), (''name'', StrV ''Ann''), (''email'', StrV ''ann@x.com''),
           (''password'', StrV ''$2b$10$321terceS''), (''role'', StrV ''user''),
           (''create_at'', TimeV 7), (''update_at'', TimeV 7)]], id_seq = 2\<rparr>,
        log = [UserCreated (StrV ''ann@x.com'') (StrV ''user'')]\<rparr>)"
  apply (simp add: signup_def signupSchema_def str_field_def example_deps_def ann_signup_def
      shouted_signup_def Let_def)
  apply (simp add: createUser_def db_select_eq_def initial_world_def empty_store_def)
  apply (simp add: db_insert_def users_columns uses_sequence_def column_value_def default_of_def
      field_def Let_def)
  apply (simp add: logger_info_def projection_def cookies_set_def fresh_response_def getOptions_def
      merge_options_def no_overrides_def field_def)
  done

lemma shouted_signup_reached:
  "arrive app_part_001 shouted_signup = Reached SignupHandler shouted_signup True"
  using auth_reached [of SignupHandler "''/sign-up''" shouted_signup shouted_signup True]
  by (simp add: parsed_ann) (simp add: ann_signup_def shouted_signup_def lowercase_def lower_char_def)

lemma plain_get_plain: "plain_root_request example_deps plain_get"
  by (simp add: plain_root_request_def plain_get_def example_deps_def)

lemma busy_get_plain: "plain_root_request example_deps busy_get"
  by (simp add: plain_root_request_def busy_get_def example_deps_def)

section \<open>The claims\<close>

subsection \<open>Email uniqueness\<close>

text \<open>
  Claim C1: the \<^verbatim>\<open>users\<close> relation enforces email uniqueness. In every state of the store
  that a run of insert statements reaches from the empty table, a selection by email
  returns at most one row; and an insert that carries the email of an existing row is
  rejected with an error and leaves the rows as they were.
\<close>

theorem users_email_unique:
  "length (db_select_eq ''email'' v (run_inserts empty_store xs)) \<le> 1
   \<and> (StrV e \<in> set (emails (run_inserts empty_store xs)) \<and> map_of vals ''email'' = Some (StrV e)
        \<longrightarrow> (\<exists>err. fst (db_insert users now vals (run_inserts empty_store xs)) = Inl err)
          \<and> rows (snd (db_insert users now vals (run_inserts empty_store xs)))
              = rows (run_inserts empty_store xs))"
proof -
  define st where "st = run_inserts empty_store xs"
  have "distinct (emails empty_store) \<and> (\<forall>v \<in> set (emails empty_store). \<exists>s. v = StrV s \<and> length s \<le> 256)"
    by (simp add: emails_def empty_store_def)
  from run_inserts_emails [OF this, of xs]
  have d: "distinct (emails st)" and l: "\<forall>v \<in> set (emails st). \<exists>s. v = StrV s \<and> length s \<le> 256"
    by (simp_all add: st_def)
  from d have one: "length (db_select_eq ''email'' v st) \<le> 1"
    using distinct_select [of "\<lambda>r. field r ''email''" "rows st" v]
    by (simp add: db_select_eq_def emails_def)
  have rej: "(\<exists>err. fst (db_insert users now vals st) = Inl err)
      \<and> rows (snd (db_insert users now vals st)) = rows st"
    if mem: "StrV e \<in> set (emails st)" and v: "map_of vals ''email'' = Some (StrV e)"
  proof -
    from l mem have "length e \<le> 256" by auto
    from duplicate_email_rejected [OF this mem v, of now] obtain err
      where "fst (db_insert users now vals st) = Inl err" by blast
    moreover from this have "rows (snd (db_insert users now vals st)) = rows st"
      using db_insert_Inl [of users now vals st err "snd (db_insert users now vals st)"]
      by (metis prod.collapse)
    ultimately show ?thesis by blast
  qed
  from one rej show ?thesis unfolding st_def by blast
qed

theorem users_email_unique_witness:
  "StrV ''ann@x.com'' \<in> set (emails (run_inserts empty_store [(5, ann_values)]))
   \<and> map_of ann_values ''email'' = Some (StrV ''ann@x.com'')
   \<and> (\<exists>err. fst (db_insert users 6 ann_values (run_inserts empty_store [(5, ann_values)])) = Inl err)
   \<and> rows (snd (db_insert users 6 ann_values (run_inserts empty_store [(5, ann_values)])))
        = rows (run_inserts empty_store [(5, ann_values)])
   \<and> length (db_select_eq ''email'' (StrV ''ann@x.com'') (run_inserts empty_store [(5, ann_values)])) \<le> 1"
proof -
  have h1: "StrV ''ann@x.com'' \<in> set (emails (run_inserts empty_store [(5, ann_values)]))"
    by code_simp
  have h2: "map_of ann_values ''email'' = Some (StrV ''ann@x.com'')"
    by code_simp
  from users_email_unique [of "StrV ''ann@x.com''" "[(5, ann_values)]" "''ann@x.com''" ann_values 6] h1 h2
  show ?thesis by blast
qed

subsection \<open>The listening port\<close>

lemma PORT_constant: "PORT env = Num 3000"
  by (simp add: PORT_def js_or_def)

text \<open>
  Claim C2: the server listens on the externally supplied port, 3000 being only the
  default when \<^verbatim>\<open>PORT\<close> is unset. The code evaluates \<^verbatim>\<open>3000 || process.env.PORT\<close>, whose
  left operand is always truthy: with \<^verbatim>\<open>PORT=8080\<close> in the environment the server still
  listens on 3000.
\<close>

theorem server_ignores_PORT:
  "listen_port [''PORT'' \<mapsto> ''8080''] = Num 3000"
  by (simp add: listen_port_def PORT_def js_or_def)

subsection \<open>The persisted schema\<close>

text \<open>
  Claim C3: the persisted \<^verbatim>\<open>users\<close> schema is the relation of the spec: the columns
  \<^verbatim>\<open>id\<close> (serial, primary key), \<^verbatim>\<open>name\<close> \<^verbatim>\<open>varchar(256)\<close> not null, \<^verbatim>\<open>email\<close> \<^verbatim>\<open>varchar(256)\<close>
  not null and unique, \<^verbatim>\<open>password\<close> \<^verbatim>\<open>varchar(512)\<close> not null, \<^verbatim>\<open>role\<close> \<^verbatim>\<open>varchar(50)\<close> not
  null with the default \<^verbatim>\<open>'user'\<close>, and the timestamps \<^verbatim>\<open>create_at\<close> and \<^verbatim>\<open>update_at\<close> with
  the default \<^verbatim>\<open>now()\<close>; the model and the generated migration agree; and a row inserted
  without a role has the role \<^verbatim>\<open>'user'\<close>. (The code also declares both timestamps not
  null, as the list of the not-null columns records.)
\<close>

theorem users_schema:
  "table_name users = ''users''
   \<and> map (\<lambda>c. (col_name c, col_type c)) (columns users) =
        [(''id'', Serial), (''name'', Varchar 256), (''email'', Varchar 256),
         (''password'', Varchar 512), (''role'', Varchar 50),
         (''create_at'', Timestamp), (''update_at'', Timestamp)]
   \<and> map col_name (filter is_primary_key (columns users)) = [''id'']
   \<and> map col_name (filter is_unique (columns users)) = [''email'']
   \<and> map col_name (filter is_not_null (columns users)) =
        [''id'', ''name'', ''email'', ''password'', ''role'', ''create_at'', ''update_at'']
   \<and> map (\<lambda>c. (col_name c, col_default c)) (columns users) =
        [(''id'', None), (''name'', None), (''email'', None), (''password'', None),
         (''role'', Some (DefaultValue ''user'')),
         (''create_at'', Some DefaultNow), (''update_at'', Some DefaultNow)]
   \<and> users_migration = users
   \<and> (map_of vals ''role'' = None \<and> db_insert users now vals st = (Inr r, st')
        \<longrightarrow> field r ''role'' = StrV ''user'')"
proof -
  have "table_name users = ''users''" by (simp add: users_def pgTable_def)
  moreover have "map_of vals ''role'' = None \<and> db_insert users now vals st = (Inr r, st')
        \<longrightarrow> field r ''role'' = StrV ''user''"
    using insert_users_role by blast
  ultimately show ?thesis
    by (simp add: users_columns users_eq_migration [symmetric])
qed

theorem users_schema_witness:
  "map_of ann_values ''role'' = None
   \<and> db_insert users 5 ann_values empty_store =
       (Inr [(''id'', IntV 1), (''name'', StrV ''Ann''), (''email'', StrV ''ann@x.com''),
             (''password'', StrV ''$2b$10$hash''), (''role'', StrV ''user''),
             (''create_at'', TimeV 5), (''update_at'', TimeV 5)],
        \<lparr>rows = [[(''id'', IntV 1), (''name'', StrV ''Ann''), (''email'', StrV ''ann@x.com''),
             (''password'', StrV ''$2b$10$hash''), (''role'', StrV ''user''),
             (''create_at'', TimeV 5), (''update_at'', TimeV 5)]], id_seq = 2\<rparr>)
   \<and> field [(''id'', IntV 1), (''name'', StrV ''Ann''), (''email'', StrV ''ann@x.com''),
             (''password'', StrV ''$2b$10$hash''), (''role'', StrV ''user''),
             (''create_at'', TimeV 5), (''update_at'', TimeV 5)] ''role'' = StrV ''user''"
proof -
  have h1: "map_of ann_values ''role'' = None" by (simp add: ann_values_def)
  note h2 = ann_insert
  from users_schema [of ann_values 5 empty_store _ _] h1 h2 show ?thesis by blast
qed

subsection \<open>The authentication endpoints\<close>

text \<open>
  Claim C4, as amended: in the copy of \<^verbatim>\<open>app.js\<close> that mounts the router
  (\<^verbatim>\<open>app.use('/api/auth', authRoutes)\<close>), a request reaches \<^verbatim>\<open>signup\<close>, \<^verbatim>\<open>signIn\<close> or
  \<^verbatim>\<open>signOut\<close> exactly when it is a POST whose body the parsers accept and whose path is
  \<^verbatim>\<open>/api/auth/sign-up\<close>, \<^verbatim>\<open>/api/auth/sign-in\<close> or \<^verbatim>\<open>/api/auth/sign-out\<close> up to the case of its
  letters and one trailing slash; and such a POST to one of the three paths as written
  runs that operation on the parsed request.
\<close>

theorem auth_endpoints_mounted:
  "((\<exists>r lg. arrive app_part_001 req = Reached SignupHandler r lg)
      = (req_method req = POST \<and> parsers_accept (req_payload req)
         \<and> (lowercase (req_path req) = ''/api/auth/sign-up''
              \<or> lowercase (req_path req) = ''/api/auth/sign-up/'')))
   \<and> ((\<exists>r lg. arrive app_part_001 req = Reached SignInHandler r lg)
      = (req_method req = POST \<and> parsers_accept (req_payload req)
         \<and> (lowercase (req_path req) = ''/api/auth/sign-in''
              \<or> lowercase (req_path req) = ''/api/auth/sign-in/'')))
   \<and> ((\<exists>r lg. arrive app_part_001 req = Reached SignOutHandler r lg)
      = (req_method req = POST \<and> parsers_accept (req_payload req)
         \<and> (lowercase (req_path req) = ''/api/auth/sign-out''
              \<or> lowercase (req_path req) = ''/api/auth/sign-out/'')))
   \<and> (req_method req = POST \<and> parsers_accept (req_payload req) \<longrightarrow>
        (req_path req = ''/api/auth/sign-up'' \<longrightarrow>
           serve d app_part_001 now req w = finish True req (signup d now (parsed req) fresh_response w))
      \<and> (req_path req = ''/api/auth/sign-in'' \<longrightarrow>
           serve d app_part_001 now req w = finish True req (signIn d (parsed req) fresh_response w))
      \<and> (req_path req = ''/api/auth/sign-out'' \<longrightarrow>
           serve d app_part_001 now req w = finish True req (signOut d (parsed req) fresh_response w)))"
proof -
  have up: "(\<exists>r lg. arrive app_part_001 req = Reached SignupHandler r lg)
      = (req_method req = POST \<and> parsers_accept (req_payload req)
         \<and> (lowercase (req_path req) = ''/api/auth/sign-up''
              \<or> lowercase (req_path req) = ''/api/auth/sign-up/''))"
    using auth_reached [of SignupHandler "''/sign-up''" req] by auto
  have inn: "(\<exists>r lg. arrive app_part_001 req = Reached SignInHandler r lg)
      = (req_method req = POST \<and> parsers_accept (req_payload req)
         \<and> (lowercase (req_path req) = ''/api/auth/sign-in''
              \<or> lowercase (req_path req) = ''/api/auth/sign-in/''))"
    using auth_reached [of SignInHandler "''/sign-in''" req] by auto
  have out: "(\<exists>r lg. arrive app_part_001 req = Reached SignOutHandler r lg)
      = (req_method req = POST \<and> parsers_accept (req_payload req)
         \<and> (lowercase (req_path req) = ''/api/auth/sign-out''
              \<or> lowercase (req_path req) = ''/api/auth/sign-out/''))"
    using auth_reached [of SignOutHandler "''/sign-out''" req] by auto
  have low: "lowercase ''/api/auth/sign-up'' = ''/api/auth/sign-up''"
    "lowercase ''/api/auth/sign-in'' = ''/api/auth/sign-in''"
    "lowercase ''/api/auth/sign-out'' = ''/api/auth/sign-out''"
    by (simp_all add: lowercase_def lower_char_def)
  have run: "(req_path req = ''/api/auth/sign-up'' \<longrightarrow>
           serve d app_part_001 now req w = finish True req (signup d now (parsed req) fresh_response w))
      \<and> (req_path req = ''/api/auth/sign-in'' \<longrightarrow>
           serve d app_part_001 now req w = finish True req (signIn d (parsed req) fresh_response w))
      \<and> (req_path req = ''/api/auth/sign-out'' \<longrightarrow>
           serve d app_part_001 now req w = finish True req (signOut d (parsed req) fresh_response w))"
    if "req_method req = POST" "parsers_accept (req_payload req)"
    using that low
      auth_served [of SignupHandler "''/sign-up''" req d now w]
      auth_served [of SignInHandler "''/sign-in''" req d now w]
      auth_served [of SignOutHandler "''/sign-out''" req d now w]
    by auto
  from up inn out run show ?thesis by blast
qed

theorem auth_endpoints_mounted_witness:
  "req_method ann_signup = POST \<and> parsers_accept (req_payload ann_signup)
   \<and> req_path ann_signup = ''/api/auth/sign-up''
   \<and> serve example_deps app_part_001 7 ann_signup initial_world =
        finish True ann_signup (signup example_deps 7 (parsed ann_signup) fresh_response initial_world)
   \<and> (\<exists>r lg. arrive app_part_001 ann_signup = Reached SignupHandler r lg)"
proof -
  have h: "req_method ann_signup = POST" "parsers_accept (req_payload ann_signup)"
    "req_path ann_signup = ''/api/auth/sign-up''"
    by (simp_all add: ann_signup_def)
  have "lowercase (req_path ann_signup) = ''/api/auth/sign-up''"
    by (simp add: ann_signup_def lowercase_def lower_char_def)
  with auth_endpoints_mounted [of ann_signup example_deps 7 initial_world] h
  show ?thesis by blast
qed

text \<open>
  The claim as it was stated, with the three paths as the only ones, fails: a POST to
  \<^verbatim>\<open>/API/AUTH/sign-up\<close> reaches \<^verbatim>\<open>signup\<close> and is answered with 201.
\<close>

theorem auth_endpoints_counterexample:
  "req_method shouted_signup = POST
   \<and> req_path shouted_signup = ''/API/AUTH/sign-up''
   \<and> req_path shouted_signup \<noteq> ''/api/auth/sign-up''
   \<and> arrive app_part_001 shouted_signup = Reached SignupHandler shouted_signup True
   \<and> status (fst (serve example_deps app_part_001 7 shouted_signup initial_world)) = 201"
  by (simp add: shouted_signup_reached serve_def finish_def shouted_signup_handled)
    (simp add: shouted_signup_def ann_signup_def)

subsection \<open>The cookie options\<close>

text \<open>
  Claim C5: for every environment, the base options of the session cookie are
  \<^verbatim>\<open>httpOnly\<close> true, \<^verbatim>\<open>secure\<close> true exactly when the environment is production,
  \<^verbatim>\<open>sameSite\<close> strict and a \<^verbatim>\<open>maxAge\<close> of 15 minutes (in milliseconds).
\<close>

theorem getOptions_base:
  "httpOnly (getOptions env) \<and> secure (getOptions env) = (env = Str ''production'')
   \<and> sameSite (getOptions env) = ''strict'' \<and> maxAge (getOptions env) = 15 * 60 * 1000"
  by (simp add: getOptions_def)

subsection \<open>The timestamps of a new user\<close>

text \<open>
  Claim C6: every user row created by \<^verbatim>\<open>signup\<close> has both timestamps set at creation:
  when a sign-up at time \<open>now\<close> succeeds (status 201) or changes the rows, it has appended
  exactly one row, whose \<^verbatim>\<open>create_at\<close> and \<^verbatim>\<open>update_at\<close> are the time of the insert, whatever
  the request carried.
\<close>

theorem signup_sets_timestamps:
  assumes "signup d now req res w = (res', w')"
    and "status res' = 201 \<or> rows (db w') \<noteq> rows (db w)"
  shows "\<exists>r. rows (db w') = rows (db w) @ [r]
           \<and> field r ''create_at'' = TimeV now \<and> field r ''update_at'' = TimeV now"
proof -
  from signup_effect [OF assms(1)] assms(2) obtain r where
    "rows (db w') = rows (db w) @ [r]" "field r ''create_at'' = TimeV now"
    "field r ''update_at'' = TimeV now" by blast
  then show ?thesis by blast
qed

theorem signup_sets_timestamps_witness:
  "status (fst (signup example_deps 7 ann_signup fresh_response initial_world)) = 201
   \<and> (\<exists>r. rows (db (snd (signup example_deps 7 ann_signup fresh_response initial_world)))
              = rows (db initial_world) @ [r]
         \<and> field r ''create_at'' = TimeV 7 \<and> field r ''update_at'' = TimeV 7)"
proof -
  have h: "status (fst (signup example_deps 7 ann_signup fresh_response initial_world)) = 201"
    by (simp add: ann_signup_handled)
  from signup_sets_timestamps [of example_deps 7 ann_signup fresh_response initial_world
      "fst (signup example_deps 7 ann_signup fresh_response initial_world)"
      "snd (signup example_deps 7 ann_signup fresh_response initial_world)"] h
  show ?thesis by simp
qed

subsection \<open>The length of a stored name\<close>

text \<open>
  Claim C7: every stored user has a name of between 1 and 255 characters. After any run
  of requests against the application, started with no users, the \<^verbatim>\<open>name\<close> of every row
  is a string of at least 1 and at most 255 characters.
\<close>

theorem stored_names_bounded:
  "\<forall>r \<in> set (rows (db (run_requests d layers initial_world reqs))).
      \<exists>s. field r ''name'' = StrV s \<and> 1 \<le> length s \<and> length s \<le> 255"
  by (rule run_requests_names) (simp add: initial_world_def empty_store_def)

theorem stored_names_bounded_witness:
  "rows (db (run_requests example_deps app_part_001 initial_world [(7, ann_signup)])) \<noteq> []
   \<and> (\<exists>s. field (hd (rows (db (run_requests example_deps app_part_001 initial_world [(7, ann_signup)])))) ''name'' = StrV s
         \<and> 1 \<le> length s \<and> length s \<le> 255)"
proof -
  have h: "rows (db (run_requests example_deps app_part_001 initial_world [(7, ann_signup)])) \<noteq> []"
    by (simp add: ann_signup_served ann_signup_handled finish_def logger_info_def)
  with stored_names_bounded [of example_deps app_part_001 "[(7, ann_signup)]"] show ?thesis
    by simp
qed

subsection \<open>Rows are only ever appended\<close>

text \<open>
  Claim C8: no operation of the flows updates or deletes a row of \<^verbatim>\<open>users\<close>. After any
  run of requests the rows that were there are still there, unchanged and in place,
  followed by the rows inserted since; \<^verbatim>\<open>signup\<close> appends at most one row, and \<^verbatim>\<open>signIn\<close>
  and \<^verbatim>\<open>signOut\<close> leave the database as it was.
\<close>

theorem flows_only_insert:
  "(\<exists>rs. rows (db (run_requests d layers w reqs)) = rows (db w) @ rs)
   \<and> (\<exists>rs. rows (db (snd (signup d now req res w))) = rows (db w) @ rs \<and> length rs \<le> 1)
   \<and> db (snd (signIn d req res w)) = db w
   \<and> db (snd (signOut d req res w)) = db w"
proof -
  obtain res' w' where s: "signup d now req res w = (res', w')" by (cases "signup d now req res w")
  from signup_effect [OF s] have "\<exists>rs. rows (db w') = rows (db w) @ rs \<and> length rs \<le> 1"
    by auto
  with s run_requests_rows [of d layers w reqs] signIn_db [of d req res w] signOut_db [of d req res w]
  show ?thesis by simp
qed

subsection \<open>The landing endpoint\<close>

text \<open>
  Claim C9, as amended: the answer to \<^verbatim>\<open>GET /\<close> is the same for every request that gets
  as far as the handler and is not answered as unchanged. For any two \<^verbatim>\<open>GET /\<close> requests
  whose body the parsers accept and whose cache validators do not match the greeting,
  the response has status 200 and the body \<^verbatim>\<open>Hello from acquisitions!\<close>, whatever their
  other headers, cookies and body, in both copies of the application.
\<close>

theorem root_answer_fixed:
  assumes "plain_root_request d req1" and "plain_root_request d req2"
  shows "fst (serve d app now1 req1 w1) =
           \<lparr>status = 200, resp_body = Text ''Hello from acquisitions!'', resp_cookies = []\<rparr>
     \<and> fst (serve d app now2 req2 w2) = fst (serve d app now1 req1 w1)
     \<and> fst (serve d app_part_001 now1 req1 w1) =
           \<lparr>status = 200, resp_body = Text ''Hello from acquisitions!'', resp_cookies = []\<rparr>
     \<and> fst (serve d app_part_001 now2 req2 w2) = fst (serve d app_part_001 now1 req1 w1)"
  using plain_root_served [OF assms(1)] plain_root_served [OF assms(2)] by simp

theorem root_answer_fixed_witness:
  "plain_root_request example_deps plain_get \<and> plain_root_request example_deps busy_get
   \<and> plain_get \<noteq> busy_get
   \<and> fst (serve example_deps app 7 plain_get initial_world) =
        \<lparr>status = 200, resp_body = Text ''Hello from acquisitions!'', resp_cookies = []\<rparr>
   \<and> fst (serve example_deps app 8 busy_get initial_world) =
        fst (serve example_deps app 7 plain_get initial_world)"
proof -
  have "plain_get \<noteq> busy_get" by (simp add: plain_get_def busy_get_def)
  with root_answer_fixed [OF plain_get_plain busy_get_plain, of 7 initial_world 8 initial_world]
    plain_get_plain busy_get_plain
  show ?thesis by simp
qed

text \<open>
  The claim as it was stated, for any two requests to \<^verbatim>\<open>GET /\<close>, fails: the JSON parser
  registered before the route answers a \<^verbatim>\<open>GET /\<close> whose body does not parse with 400,
  while a plain \<^verbatim>\<open>GET /\<close> is answered with 200.
\<close>

theorem root_answer_counterexample:
  "req_method malformed_get = GET \<and> req_path malformed_get = ''/''
   \<and> req_method plain_get = GET \<and> req_path plain_get = ''/''
   \<and> status (fst (serve example_deps app 7 malformed_get initial_world)) = 400
   \<and> status (fst (serve example_deps app 7 plain_get initial_world)) = 200
   \<and> status (fst (serve example_deps app_part_001 7 malformed_get initial_world)) = 400
   \<and> status (fst (serve example_deps app_part_001 7 plain_get initial_world)) = 200"
  using plain_root_served [OF plain_get_plain]
  by (simp add: malformed_get_served error_page_def) (simp add: malformed_get_def plain_get_def)

end
